theory Spec2Isabelle
  imports Complex_Main
begin

section \<open>Strings of the JavaScript runtime\<close>

text \<open>
  A JavaScript string is a sequence of UTF-16 code units and \<open>length\<close> counts code
  units.  A code unit is modelled as a natural number; the Hangul syllables
  (U+AC00 .. U+D7A3) are single code units.  ASCII literals are written with \<open>S\<close>.
\<close>

type_synonym jschar = nat
type_synonym jsstring = "nat list"

definition S :: "string \<Rightarrow> jsstring" where
  "S s = map of_char s"

text \<open>
  The characters matched by \<open>\s\<close> in a regular expression and removed by
  \<open>String.prototype.trim\<close>: the WhiteSpace and LineTerminator code points of ECMAScript.
\<close>

definition isWhiteSpace :: "jschar \<Rightarrow> bool" where
  "isWhiteSpace c \<longleftrightarrow>
     c = 9 \<or> c = 10 \<or> c = 11 \<or> c = 12 \<or> c = 13 \<or> c = 32 \<or> c = 160 \<or> c = 5760 \<or>
     (8192 \<le> c \<and> c \<le> 8202) \<or> c = 8232 \<or> c = 8233 \<or> c = 8239 \<or> c = 8287 \<or>
     c = 12288 \<or> c = 65279"

definition trim :: "jsstring \<Rightarrow> jsstring" where
  "trim s = rev (dropWhile isWhiteSpace (rev (dropWhile isWhiteSpace s)))"

text \<open>
  \<open>s.split(/\s+/)\<close>: the pieces between the maximal runs of white space.  The flag
  says whether the previous code unit belonged to a separator; the pieces at both
  ends may be empty, and the empty string gives one empty piece.
\<close>

fun splitRuns :: "bool \<Rightarrow> jsstring \<Rightarrow> jsstring \<Rightarrow> jsstring list" where
  "splitRuns inSep cur [] = [cur]"
| "splitRuns inSep cur (c # cs) =
     (if isWhiteSpace c
      then (if inSep then splitRuns True [] cs else cur # splitRuns True [] cs)
      else splitRuns False (cur @ [c]) cs)"

definition splitWs :: "jsstring \<Rightarrow> jsstring list" where
  "splitWs s = splitRuns False [] s"

text \<open>
  \<open>s.replace(/[...]+/g, r)\<close> for a character class \<open>P\<close> and a one-character
  replacement \<open>r\<close>: scanning from the left, a code unit outside the class is copied,
  and a code unit of the class starts a match that takes the whole run after it and is
  replaced by \<open>r\<close>.
\<close>

function replaceRuns :: "(jschar \<Rightarrow> bool) \<Rightarrow> jschar \<Rightarrow> jsstring \<Rightarrow> jsstring" where
  "replaceRuns P r [] = []"
| "replaceRuns P r (c # cs) =
     (if P c then r # replaceRuns P r (dropWhile P cs)
      else c # replaceRuns P r cs)"
  by pat_completeness auto
termination
  by (relation "measure (\<lambda>(P, r, s). length s)")
     (auto simp: less_Suc_eq_le length_dropWhile_le)

text \<open>\<open>parts.join(sep)\<close>.\<close>

fun join :: "jsstring \<Rightarrow> jsstring list \<Rightarrow> jsstring" where
  "join sep [] = []"
| "join sep [p] = p"
| "join sep (p # q # ps) = p @ sep @ join sep (q # ps)"

section \<open>The data model (analysisTypes)\<close>

record AnalysisMeta =
  title :: "jsstring option"
  description :: "jsstring option"
  metaKeywords :: "jsstring option"
  ogTitle :: "jsstring option"
  ogDescription :: "jsstring option"
  canonical :: "jsstring option"

text \<open>
  JavaScript numbers are modelled as exact rationals: the scores of a run are small
  integers and quotients of small integers.
\<close>

record SeedKeyword =
  value' :: jsstring
  score :: rat

datatype SearchSource = Google | Naver | Community

record SearchQuestion =
  source :: SearchSource
  text' :: jsstring
  url :: "jsstring option"

record QuestionCluster =
  topic :: jsstring
  representativeQuestion :: jsstring
  variants :: "jsstring list"
  coveredByPage :: bool
  evidence :: "SearchQuestion list"

record GeoScores =
  structureScore :: int
  questionCoverage :: rat
  finalScore :: int

section \<open>The runtime\<close>

text \<open>
  What the code takes from its platform and from the cheerio library is a parameter
  of the model.  \<open>toLowerCase\<close> is \<open>String.prototype.toLowerCase\<close> (the Unicode case
  mapping).  \<open>encodeURIComponent\<close> returns \<open>None\<close> where the runtime throws URIError
  (a lone surrogate).  \<open>fetch\<close> is the download: \<open>Inl\<close> carries the message of the
  error of a rejected request, \<open>Inr\<close> the response, whose \<open>text()\<close> can be rejected
  in turn.  The \<open>dom_\<close> fields are the cheerio queries of \<open>extractMetaAndContent\<close> on
  the loaded page: the text of \<open>title\<close>, the \<open>content\<close> attribute of four \<open>meta\<close>
  elements and the \<open>href\<close> attribute of the canonical link (\<open>None\<close> when the
  attribute is missing), the text of each \<open>h1\<close>, \<open>h2\<close> and \<open>h3\<close> element in document
  order, and the text of \<open>body\<close>.
\<close>

record Response =
  ok :: bool
  status :: nat
  statusText :: jsstring
  responseText :: "jsstring + jsstring"

record runtime =
  toLowerCase :: "jsstring \<Rightarrow> jsstring"
  encodeURIComponent :: "jsstring \<Rightarrow> jsstring option"
  fetch :: "jsstring \<Rightarrow> jsstring + Response"
  dom_title :: "jsstring \<Rightarrow> jsstring"
  dom_description :: "jsstring \<Rightarrow> jsstring option"
  dom_keywords :: "jsstring \<Rightarrow> jsstring option"
  dom_ogTitle :: "jsstring \<Rightarrow> jsstring option"
  dom_ogDescription :: "jsstring \<Rightarrow> jsstring option"
  dom_canonical :: "jsstring \<Rightarrow> jsstring option"
  dom_headings :: "jsstring \<Rightarrow> jsstring list"
  dom_body :: "jsstring \<Rightarrow> jsstring"

section \<open>Page download and extraction (htmlAnalyzer)\<close>

text \<open>The decimal digits of a number, as the template literal writes the status.\<close>

function decimal :: "nat \<Rightarrow> jsstring" where
  "decimal n = (if n < 10 then [48 + n] else decimal (n div 10) @ [48 + n mod 10])"
  by pat_completeness auto
termination
  by (relation "measure id") auto

definition fetchHtml :: "runtime \<Rightarrow> jsstring \<Rightarrow> jsstring + jsstring" where
  "fetchHtml rt u =
     (case fetch rt u of
        Inl message \<Rightarrow> Inl message
      | Inr response \<Rightarrow>
          if \<not> ok response
          then Inl (S ''Failed to fetch '' @ u @ S '': '' @ decimal (status response) @ S '' ''
                    @ statusText response)
          else responseText response)"

text \<open>
  \<open>text.split(/[.!?]\s+/)\<close>: a full stop, exclamation mark or question mark followed
  by white space ends a piece, and the separator takes the whole run of white space.
\<close>

function splitSentences :: "jsstring \<Rightarrow> jsstring \<Rightarrow> jsstring list" where
  "splitSentences cur [] = [cur]"
| "splitSentences cur (c # cs) =
     (if (c = 46 \<or> c = 33 \<or> c = 63) \<and> (case cs of [] \<Rightarrow> False | d # ds \<Rightarrow> isWhiteSpace d)
      then cur # splitSentences [] (dropWhile isWhiteSpace cs)
      else splitSentences (cur @ [c]) cs)"
  by pat_completeness auto
termination
  by (relation "measure (\<lambda>(cur, s). length s)")
     (auto simp: less_Suc_eq_le length_dropWhile_le)

text \<open>\<open>s.includes(sub)\<close>.\<close>

fun includes' :: "jsstring \<Rightarrow> jsstring \<Rightarrow> bool" where
  "includes' [] sub = (sub = [])"
| "includes' (c # cs) sub = (take (length sub) (c # cs) = sub \<or> includes' cs sub)"

text \<open>The twelve Korean question words of the source, as code units.\<close>

definition questionKeywords :: "jsstring list" where
  "questionKeywords =
     [[50612, 46523, 44172],
      [50616, 51228],
      [50780],
      [47924, 50631],
      [44032, 45733],
      [48169, 48277],
      [48708, 50857],
      [44592, 44036],
      [52264, 51060],
      [52628, 52380],
      [50612, 46356],
      [45572, 44032]]"

definition extractQuestions :: "jsstring \<Rightarrow> jsstring list" where
  "extractQuestions txt =
     (let sentences = filter (\<lambda>s. 10 < length s) (map trim (splitSentences [] txt))
      in filter (\<lambda>sentence.
                   let hasQuestionMark = includes' sentence (S ''?'');
                       hasKeyword = list_ex (\<lambda>keyword. includes' sentence keyword) questionKeywords
                   in hasQuestionMark \<or> hasKeyword)
           sentences)"

text \<open>\<open>x.trim() || null\<close>, and \<open>a?.trim() || null\<close> for an attribute that may be missing.\<close>

definition trimOrNull :: "jsstring \<Rightarrow> jsstring option" where
  "trimOrNull x = (if trim x = [] then None else Some (trim x))"

definition attrTrimOrNull :: "jsstring option \<Rightarrow> jsstring option" where
  "attrTrimOrNull a = (case a of None \<Rightarrow> None | Some x \<Rightarrow> trimOrNull x)"

record Extracted =
  ex_meta :: AnalysisMeta
  ex_headings :: "jsstring list"
  ex_contentText :: jsstring
  ex_pageQuestions :: "jsstring list"

definition extractMetaAndContent :: "runtime \<Rightarrow> jsstring \<Rightarrow> Extracted" where
  "extractMetaAndContent rt html =
     (let m = \<lparr>title = trimOrNull (dom_title rt html),
                description = attrTrimOrNull (dom_description rt html),
                metaKeywords = attrTrimOrNull (dom_keywords rt html),
                ogTitle = attrTrimOrNull (dom_ogTitle rt html),
                ogDescription = attrTrimOrNull (dom_ogDescription rt html),
                canonical = attrTrimOrNull (dom_canonical rt html)\<rparr>;
          hs = filter (\<lambda>t. t \<noteq> []) (map trim (dom_headings rt html));
          bodyText = trim (replaceRuns isWhiteSpace 32 (dom_body rt html));
          content = take 5000 bodyText;
          questions = extractQuestions content
      in \<lparr>ex_meta = m, ex_headings = hs, ex_contentText = content,
          ex_pageQuestions = questions\<rparr>)"

section \<open>Keyword extraction (keywordExtractor.extractSeedKeywords)\<close>

text \<open>
  The stop words, as UTF-16 code units: the seventeen Korean words, then the English
  ones, in the order of the source.
\<close>

definition STOP_WORDS :: "jsstring list" where
  "STOP_WORDS =
     [[44536, 47532, 44256],
      [54616, 51648, 47564],
      [44536, 47084, 45208],
      [44536, 47084, 47732, 49436],
      [46608, 45716],
      [46608, 54620],
      [51060, 44163],
      [51200, 44163],
      [44536, 44163],
      [51080, 45716],
      [54616, 45716],
      [46104, 45716],
      [53685, 54644],
      [45824, 54620],
      [50948, 54620],
      [44057, 51008],
      [47566, 51008],
      S ''the'', S ''is'', S ''are'', S ''and'', S ''or'', S ''for'', S ''with'',
      S ''this'', S ''that'', S ''from'', S ''into'', S ''about'', S ''your'', S ''our'',
      S ''has'', S ''have'', S ''can'', S ''will'', S ''been'', S ''more'', S ''when'',
      S ''they'', S ''them'', S ''their'', S ''what'', S ''which'']"

text \<open>The character class \<open>[0-9a-zA-Z\<close>U+AC00\<open>-\<close>U+D7A3\<open>]\<close> and the class \<open>\d\<close>.\<close>

definition isWordChar :: "jschar \<Rightarrow> bool" where
  "isWordChar c \<longleftrightarrow>
     (48 \<le> c \<and> c \<le> 57) \<or> (97 \<le> c \<and> c \<le> 122) \<or> (65 \<le> c \<and> c \<le> 90) \<or>
     (44032 \<le> c \<and> c \<le> 55203)"

definition isDigit :: "jschar \<Rightarrow> bool" where
  "isDigit c \<longleftrightarrow> 48 \<le> c \<and> c \<le> 57"

text \<open>\<open>/^\d+$/.test(token)\<close>.\<close>

definition allDigits :: "jsstring \<Rightarrow> bool" where
  "allDigits token \<longleftrightarrow> token \<noteq> [] \<and> list_all isDigit token"

text \<open>The callback of the second \<open>filter\<close>, with its three early returns.\<close>

definition keepToken :: "jsstring \<Rightarrow> bool" where
  "keepToken token =
     (if length token = 1 then False
      else if allDigits token then False
      else if 30 \<le> length token then False
      else True)"

text \<open>
  Step (1): the parts pushed in order and joined with one space.  A field of type
  \<open>string | null\<close> is a \<open>jsstring option\<close>; it is truthy when it is a non-empty
  string.
\<close>

definition pushIf :: "jsstring option \<Rightarrow> jsstring list \<Rightarrow> jsstring list" where
  "pushIf v parts = (case v of None \<Rightarrow> parts | Some s \<Rightarrow> if s \<noteq> [] then parts @ [s] else parts)"

definition assembleText :: "AnalysisMeta \<Rightarrow> jsstring list \<Rightarrow> jsstring \<Rightarrow> jsstring" where
  "assembleText m hs content =
     (let parts = [];
          parts = pushIf (title m) parts;
          parts = pushIf (ogTitle m) parts;
          parts = pushIf (description m) parts;
          parts = pushIf (ogDescription m) parts;
          parts = parts @ hs;
          parts = (if content \<noteq> [] then parts @ [take 800 content] else parts)
      in join [32] parts)"

text \<open>Steps (2) and (3): lowercase, clean, split, and the three filters.\<close>

definition tokenize :: "runtime \<Rightarrow> jsstring \<Rightarrow> jsstring list" where
  "tokenize rt rawText =
     (let normalized = toLowerCase rt rawText;
          cleaned = replaceRuns (\<lambda>c. \<not> isWordChar c) 32 normalized;
          tokens = filter (\<lambda>token. 0 < length token) (splitWs cleaned);
          tokens = filter keepToken tokens;
          tokens = filter (\<lambda>token. token \<notin> set STOP_WORDS) tokens
      in tokens)"

text \<open>
  Step (4): the frequency \<open>Map\<close>.  A \<open>Map\<close> iterates in insertion order and
  \<open>set\<close> on a key it holds keeps the key's place, so the map is an association
  list: \<open>mapSet\<close> overwrites in place or appends.
\<close>

fun mapSet :: "(jsstring \<times> nat) list \<Rightarrow> jsstring \<Rightarrow> nat \<Rightarrow> (jsstring \<times> nat) list" where
  "mapSet [] k v = [(k, v)]"
| "mapSet ((k', v') # m) k v = (if k' = k then (k, v) # m else (k', v') # mapSet m k v)"

definition mapGetOr0 :: "(jsstring \<times> nat) list \<Rightarrow> jsstring \<Rightarrow> nat" where
  "mapGetOr0 m k = (case map_of m k of None \<Rightarrow> 0 | Some c \<Rightarrow> c)"

fun countTokens :: "(jsstring \<times> nat) list \<Rightarrow> jsstring list \<Rightarrow> (jsstring \<times> nat) list" where
  "countTokens m [] = m"
| "countTokens m (token # tokens) = countTokens (mapSet m token (mapGetOr0 m token + 1)) tokens"

text \<open>
  Step (5).  \<open>entries.sort((a, b) => b[1] - a[1])\<close> is a stable sort by descending
  count: \<open>sort_key\<close> is the stable insertion sort, here on the negated count.
\<close>

definition rankEntries :: "(jsstring \<times> nat) list \<Rightarrow> SeedKeyword list" where
  "rankEntries entries =
     (let sorted = sort_key (\<lambda>e. - int (snd e)) entries;
          topEntries = take 10 sorted;
          maxCount = (if 0 < length topEntries then snd (hd topEntries) else 1)
      in map (\<lambda>(v, count). \<lparr>value' = v, score = of_nat count / of_nat maxCount\<rparr>) topEntries)"

text \<open>The token list of a call: the tokens of the assembled text.\<close>

definition seedTokens :: "runtime \<Rightarrow> AnalysisMeta \<Rightarrow> jsstring list \<Rightarrow> jsstring \<Rightarrow> jsstring list" where
  "seedTokens rt m hs content = tokenize rt (assembleText m hs content)"

definition extractSeedKeywords ::
    "runtime \<Rightarrow> AnalysisMeta \<Rightarrow> jsstring list \<Rightarrow> jsstring \<Rightarrow> SeedKeyword list" where
  "extractSeedKeywords rt m hs content =
     (let rawText = assembleText m hs content in
      if trim rawText = [] then []
      else
        let tokens = tokenize rt rawText in
        if length tokens = 0 then []
        else rankEntries (countTokens [] tokens))"

section \<open>Search questions (searchQuestions)\<close>

text \<open>
  \<open>fetchFromTavily\<close>: the three templated questions.  The tails of the templates are
  Korean text, given as code units; the only call that can throw inside the
  \<open>try\<close> block is \<open>encodeURIComponent\<close>, and the \<open>catch\<close> then returns the
  empty array.
\<close>

definition tavilyTail1 :: jsstring where
  "tavilyTail1 = [45716, 32, 50620, 47560, 45208, 32, 51088, 51452, 32, 44368, 52404, 54644, 50556, 32, 54616, 45208, 50836, 63]"

definition tavilyTail2 :: jsstring where
  "tavilyTail2 = [32, 48708, 50857, 51008, 32, 50612, 45712, 32, 51221, 46020, 51064, 44032, 50836, 63]"

definition tavilyTail3 :: jsstring where
  "tavilyTail3 = [47484, 32, 49440, 53469, 54624, 32, 46412, 32, 44256, 47140, 54644, 50556, 32, 54624, 32, 51216, 51008, 32, 47924, 50631, 51064, 44032, 50836, 63]"

definition fetchFromTavily :: "runtime \<Rightarrow> jsstring \<Rightarrow> SearchSource \<Rightarrow> SearchQuestion list" where
  "fetchFromTavily rt keyword src =
     (case encodeURIComponent rt keyword of
        None \<Rightarrow> []
      | Some enc \<Rightarrow>
          [\<lparr>source = src, text' = keyword @ tavilyTail1,
            url = Some (S ''https://example.com/search?q='' @ enc)\<rparr>,
           \<lparr>source = src, text' = keyword @ tavilyTail2,
            url = Some (S ''https://example.com/search?q='' @ enc)\<rparr>,
           \<lparr>source = src, text' = keyword @ tavilyTail3,
            url = Some (S ''https://example.com/search?q='' @ enc)\<rparr>])"

text \<open>
  \<open>dedupeQuestions\<close>: the key is the text in lower case, with every run of white
  space replaced by one space, trimmed; \<open>seen\<close> is the \<open>Set\<close> of the keys met so far.
\<close>

definition normalizedText :: "runtime \<Rightarrow> SearchQuestion \<Rightarrow> jsstring" where
  "normalizedText rt question =
     trim (replaceRuns isWhiteSpace 32 (toLowerCase rt (text' question)))"

fun dedupeLoop ::
    "runtime \<Rightarrow> jsstring set \<Rightarrow> SearchQuestion list \<Rightarrow> SearchQuestion list \<Rightarrow> SearchQuestion list" where
  "dedupeLoop rt seen dedupedQuestions [] = dedupedQuestions"
| "dedupeLoop rt seen dedupedQuestions (question # questions) =
     (if normalizedText rt question \<notin> seen
      then dedupeLoop rt (insert (normalizedText rt question) seen)
             (dedupedQuestions @ [question]) questions
      else dedupeLoop rt seen dedupedQuestions questions)"

definition dedupeQuestions :: "runtime \<Rightarrow> SearchQuestion list \<Rightarrow> SearchQuestion list" where
  "dedupeQuestions rt questions = dedupeLoop rt {} [] questions"

text \<open>
  \<open>fetchSearchQuestions\<close>.  The loop over the top keywords appends what
  \<open>fetchFromTavily\<close> returns; \<open>fetchFromTavily\<close> catches its own errors, so the
  \<open>catch\<close> branches of this function are never taken.  The scores are finite
  numbers, and the sort by descending score is stable.
\<close>

fun collectQuestions :: "runtime \<Rightarrow> SearchQuestion list \<Rightarrow> SeedKeyword list \<Rightarrow> SearchQuestion list" where
  "collectQuestions rt allQuestions [] = allQuestions"
| "collectQuestions rt allQuestions (keyword # topKeywords) =
     collectQuestions rt (allQuestions @ fetchFromTavily rt (value' keyword) Google) topKeywords"

definition fetchSearchQuestions :: "runtime \<Rightarrow> SeedKeyword list \<Rightarrow> rat \<Rightarrow> SearchQuestion list" where
  "fetchSearchQuestions rt seedKeywords maxPerKeyword =
     (if length seedKeywords = 0 then []
      else
        let sortedKeywords = sort_key (\<lambda>k. - score k) seedKeywords;
            topKeywords = take 5 sortedKeywords;
            allQuestions = collectQuestions rt [] topKeywords;
            dedupedQuestions = dedupeQuestions rt allQuestions;
            filteredQuestions = filter (\<lambda>q. 5 < length (text' q)) dedupedQuestions
        in filteredQuestions)"

section \<open>Question coverage (runAnalysis.calculateQuestionCoverage)\<close>

definition coverageTokens :: "runtime \<Rightarrow> jsstring \<Rightarrow> jsstring list" where
  "coverageTokens rt s = filter (\<lambda>token. 2 \<le> length token) (splitWs (toLowerCase rt s))"

text \<open>The inner loop over the page questions, with its \<open>break\<close> at the first match.\<close>

fun isCovered :: "runtime \<Rightarrow> jsstring list \<Rightarrow> jsstring list \<Rightarrow> bool" where
  "isCovered rt searchTokens [] = False"
| "isCovered rt searchTokens (pageQ # pageQuestions) =
     (let pageTokens = coverageTokens rt pageQ;
          intersection = filter (\<lambda>token. token \<in> set pageTokens) searchTokens
      in if 1 \<le> length intersection then True
         else isCovered rt searchTokens pageQuestions)"

fun countCovered :: "runtime \<Rightarrow> jsstring list \<Rightarrow> nat \<Rightarrow> SearchQuestion list \<Rightarrow> nat" where
  "countCovered rt pageQuestions coveredCount [] = coveredCount"
| "countCovered rt pageQuestions coveredCount (searchQ # searchQuestions) =
     (let searchTokens = coverageTokens rt (text' searchQ)
      in countCovered rt pageQuestions
           (if isCovered rt searchTokens pageQuestions then coveredCount + 1 else coveredCount)
           searchQuestions)"

definition calculateQuestionCoverage :: "runtime \<Rightarrow> jsstring list \<Rightarrow> SearchQuestion list \<Rightarrow> rat" where
  "calculateQuestionCoverage rt pageQuestions searchQuestions =
     (if length searchQuestions = 0 then 0
      else
        let totalSearchQuestions = length searchQuestions;
            coveredCount = countCovered rt pageQuestions 0 searchQuestions
        in of_nat coveredCount / of_nat totalSearchQuestions)"

section \<open>Structure score (runAnalysis.calculateStructureScore)\<close>

text \<open>The test \<open>m && m.trim().length > 0\<close> of the source.\<close>

definition hasText :: "jsstring option \<Rightarrow> bool" where
  "hasText m = (case m of None \<Rightarrow> False | Some s \<Rightarrow> s \<noteq> [] \<and> 0 < length (trim s))"

definition calculateStructureScore :: "AnalysisMeta \<Rightarrow> jsstring list \<Rightarrow> jsstring list \<Rightarrow> int" where
  "calculateStructureScore meta headings pageQuestions =
     (let score = 40;
          score = (if hasText (title meta) then score + 10 else score);
          score = (if hasText (description meta) then score + 10 else score);
          score = (if 2 \<le> length headings then score + 10 else score);
          score = (if 3 \<le> length pageQuestions then score + 10 else score)
      in min 100 (max 0 score))"

section \<open>URL normalisation (htmlAnalyzer.normalizeUrl)\<close>

text \<open>
  The \<open>URL\<close> and \<open>URLSearchParams\<close> classes belong to the platform.  \<open>normalizeUrl\<close>
  is modelled over their interface: the constructor (\<open>None\<close> where it throws
  TypeError), the accessors the function uses, and the parser and serialiser of
  query parameters.  A \<open>URLSearchParams\<close> object is its list of name-value pairs.
\<close>

record 'u url_api =
  URL_new :: "jsstring \<Rightarrow> 'u option"
  set_protocol :: "'u \<Rightarrow> jsstring \<Rightarrow> 'u"
  get_hostname :: "'u \<Rightarrow> jsstring"
  set_hostname :: "'u \<Rightarrow> jsstring \<Rightarrow> 'u"
  get_search :: "'u \<Rightarrow> jsstring"
  set_search :: "'u \<Rightarrow> jsstring \<Rightarrow> 'u"
  get_pathname :: "'u \<Rightarrow> jsstring"
  URL_toString :: "'u \<Rightarrow> jsstring"
  URLSearchParams_new :: "jsstring \<Rightarrow> (jsstring \<times> jsstring) list"
  URLSearchParams_toString :: "(jsstring \<times> jsstring) list \<Rightarrow> jsstring"

definition startsWith :: "jsstring \<Rightarrow> jsstring \<Rightarrow> bool" where
  "startsWith s p \<longleftrightarrow> take (length p) s = p"

definition endsWith :: "jsstring \<Rightarrow> jsstring \<Rightarrow> bool" where
  "endsWith s p \<longleftrightarrow> length p \<le> length s \<and> drop (length s - length p) s = p"

text \<open>\<open>hostname.replace(/^www\./, '')\<close>.\<close>

definition stripWww :: "jsstring \<Rightarrow> jsstring" where
  "stripWww h = (if startsWith h (S ''www.'') then drop 4 h else h)"

text \<open>\<open>params.delete(key)\<close> removes every pair with that name.\<close>

definition paramsDelete :: "(jsstring \<times> jsstring) list \<Rightarrow> jsstring \<Rightarrow> (jsstring \<times> jsstring) list" where
  "paramsDelete params key = filter (\<lambda>p. fst p \<noteq> key) params"

definition normalizeUrl :: "'u url_api \<Rightarrow> jsstring \<Rightarrow> jsstring" where
  "normalizeUrl api u =
     (case URL_new api u of
        None \<Rightarrow> u
      | Some urlObj \<Rightarrow>
          let urlObj = set_protocol api urlObj (S ''https:'');
              urlObj = set_hostname api urlObj (stripWww (get_hostname api urlObj));
              params = URLSearchParams_new api (get_search api urlObj);
              keysToDelete = map fst (filter (\<lambda>p. startsWith (fst p) (S ''utm_'')) params);
              params = foldl paramsDelete params keysToDelete;
              urlObj = set_search api urlObj (URLSearchParams_toString api params);
              normalized = URL_toString api urlObj;
              normalized =
                (if endsWith normalized (S ''/'') \<and> get_pathname api urlObj \<noteq> S ''/''
                 then take (length normalized - 1) normalized
                 else normalized)
          in normalized)"

section \<open>The analysis run (runAnalysis.runAnalysis)\<close>

record AnalysisResult =
  r_url :: jsstring
  r_normalizedUrl :: jsstring
  r_meta :: AnalysisMeta
  r_seedKeywords :: "SeedKeyword list"
  r_pageQuestions :: "jsstring list"
  r_searchQuestions :: "SearchQuestion list"
  r_questionClusters :: "QuestionCluster list"
  r_scores :: GeoScores

text \<open>\<open>Math.round\<close>: the nearest integer, a tie going up.\<close>

definition Math_round :: "rat \<Rightarrow> int" where
  "Math_round x = \<lfloor>x + 1 / 2\<rfloor>"

text \<open>
  Step 5 of \<open>runAnalysis\<close> after the two scorers have run: the coverage as a
  percentage, the final score and the \<open>scores\<close> object.  The literals 0.4 and 0.6
  are the rationals 4/10 and 6/10.
\<close>

definition composeScores :: "int \<Rightarrow> rat \<Rightarrow> GeoScores" where
  "composeScores structureScore' questionCoverage' =
     (let questionCoverageScore = questionCoverage' * 100;
          finalScore' = Math_round (of_int structureScore' * (4 / 10) + questionCoverageScore * (6 / 10))
      in \<lparr>structureScore = structureScore', questionCoverage = questionCoverageScore,
          finalScore = finalScore'\<rparr>)"

text \<open>
  The run.  The only step that can throw is the download; its error is thrown
  again with the Korean prefix of the source in front of the message.  What the
  function writes to the console is left out.
\<close>

definition runAnalysisErrorPrefix :: jsstring where
  "runAnalysisErrorPrefix = [48516, 49437, 32, 49892, 54665, 32, 51473, 32, 50724, 47448, 44032, 32, 48156, 49373, 54664, 49845, 45768, 45796, 58, 32]"

definition runAnalysis :: "runtime \<Rightarrow> 'u url_api \<Rightarrow> jsstring \<Rightarrow> jsstring + AnalysisResult" where
  "runAnalysis rt api u =
     (case fetchHtml rt u of
        Inl message \<Rightarrow> Inl (runAnalysisErrorPrefix @ message)
      | Inr html \<Rightarrow>
          let ex = extractMetaAndContent rt html;
              seedKeywords = extractSeedKeywords rt (ex_meta ex) (ex_headings ex) (ex_contentText ex);
              searchQuestions = fetchSearchQuestions rt seedKeywords 5;
              structureScore' = calculateStructureScore (ex_meta ex) (ex_headings ex) (ex_pageQuestions ex);
              questionCoverage' = calculateQuestionCoverage rt (ex_pageQuestions ex) searchQuestions;
              scores = composeScores structureScore' questionCoverage';
              normalizedUrl = normalizeUrl api u
          in Inr \<lparr>r_url = u, r_normalizedUrl = normalizedUrl, r_meta = ex_meta ex,
                  r_seedKeywords = seedKeywords, r_pageQuestions = ex_pageQuestions ex,
                  r_searchQuestions = searchQuestions, r_questionClusters = [],
                  r_scores = scores\<rparr>)"

section \<open>A reference runtime\<close>

text \<open>
  The examples below run on a concrete runtime.  Its \<open>toLowerCase\<close> maps the
  letters A to Z to a to z and leaves every other code unit alone, which is what the
  Unicode mapping does on a string without cased letters outside ASCII.  Its
  \<open>encodeURIComponent\<close> writes every code point outside the unreserved set as the
  percent-escaped bytes of its UTF-8 encoding and fails on a lone surrogate.  Its
  download answers every request with the requested string itself as the page, and
  its queries give the page as the text of the title and of the body, no headings and
  no other meta field.
\<close>

definition isAsciiAlpha :: "jschar \<Rightarrow> bool" where
  "isAsciiAlpha c \<longleftrightarrow> (65 \<le> c \<and> c \<le> 90) \<or> (97 \<le> c \<and> c \<le> 122)"

definition isAsciiAlnum :: "jschar \<Rightarrow> bool" where
  "isAsciiAlnum c \<longleftrightarrow> isAsciiAlpha c \<or> isDigit c"

definition asciiLower :: "jsstring \<Rightarrow> jsstring" where
  "asciiLower s = map (\<lambda>c. if 65 \<le> c \<and> c \<le> 90 then c + 32 else c) s"

definition hexDigit :: "nat \<Rightarrow> jschar" where
  "hexDigit d = (if d < 10 then 48 + d else 55 + d)"

definition percentByte :: "nat \<Rightarrow> jsstring" where
  "percentByte b = [37, hexDigit (b div 16), hexDigit (b mod 16)]"

definition isHighSurrogate :: "jschar \<Rightarrow> bool" where
  "isHighSurrogate c \<longleftrightarrow> 55296 \<le> c \<and> c \<le> 56319"

definition isLowSurrogate :: "jschar \<Rightarrow> bool" where
  "isLowSurrogate c \<longleftrightarrow> 56320 \<le> c \<and> c \<le> 57343"

fun codePoints :: "jsstring \<Rightarrow> nat option list" where
  "codePoints [] = []"
| "codePoints [c] = [if isHighSurrogate c \<or> isLowSurrogate c then None else Some c]"
| "codePoints (c # d # cs) =
     (if isHighSurrogate c \<and> isLowSurrogate d
      then Some (65536 + (c - 55296) * 1024 + (d - 56320)) # codePoints cs
      else (if isHighSurrogate c \<or> isLowSurrogate c then None else Some c) # codePoints (d # cs))"

definition utf8 :: "nat \<Rightarrow> nat list" where
  "utf8 cp =
     (if cp < 128 then [cp]
      else if cp < 2048 then [192 + cp div 64, 128 + cp mod 64]
      else if cp < 65536 then [224 + cp div 4096, 128 + (cp div 64) mod 64, 128 + cp mod 64]
      else [240 + cp div 262144, 128 + (cp div 4096) mod 64, 128 + (cp div 64) mod 64,
            128 + cp mod 64])"

definition uriUnreserved :: "jschar \<Rightarrow> bool" where
  "uriUnreserved c \<longleftrightarrow>
     isAsciiAlnum c \<or> c = 45 \<or> c = 95 \<or> c = 46 \<or> c = 33 \<or> c = 126 \<or> c = 42 \<or> c = 39 \<or>
     c = 40 \<or> c = 41"

definition encodeURIComponentRef :: "jsstring \<Rightarrow> jsstring option" where
  "encodeURIComponentRef s =
     (let cps = codePoints s in
      if None \<in> set cps then None
      else Some (concat (map (\<lambda>cp. case cp of None \<Rightarrow> []
                   | Some c \<Rightarrow> if uriUnreserved c then [c] else concat (map percentByte (utf8 c))) cps)))"

definition exampleRuntime :: runtime where
  "exampleRuntime =
     \<lparr>toLowerCase = asciiLower,
      encodeURIComponent = encodeURIComponentRef,
      fetch = (\<lambda>u. Inr \<lparr>ok = True, status = 200, statusText = S ''OK'', responseText = Inr u\<rparr>),
      dom_title = (\<lambda>html. html),
      dom_description = (\<lambda>html. None),
      dom_keywords = (\<lambda>html. None),
      dom_ogTitle = (\<lambda>html. None),
      dom_ogDescription = (\<lambda>html. None),
      dom_canonical = (\<lambda>html. None),
      dom_headings = (\<lambda>html. []),
      dom_body = (\<lambda>html. html)\<rparr>"

text \<open>The meta record of the worked examples: a title and nothing else.\<close>

definition exampleMeta :: AnalysisMeta where
  "exampleMeta = \<lparr>title = Some (S ''Geo geo score''), description = None, metaKeywords = None,
                   ogTitle = None, ogDescription = None, canonical = None\<rparr>"

text \<open>
  A text for the tokeniser: a stop word, a hyphenated word, a number, a single letter,
  a letter-digit word, a Hangul word, a Korean stop word, a run of thirty letters and
  a run of twenty-nine.
\<close>

definition exampleText :: jsstring where
  "exampleText =
     S ''The GEO-score of 2024, a x1 '' @ [54620, 44544, 32, 44536, 47532, 44256, 32] @
     S ''aaaaaaaaaaaaaaaaaaaaaaaaaaaaaa bbbbbbbbbbbbbbbbbbbbbbbbbbbbb''"

text \<open>A search question with a given text.\<close>

definition questionOf :: "jsstring \<Rightarrow> SearchQuestion" where
  "questionOf t = \<lparr>source = Google, text' = t, url = None\<rparr>"

section \<open>Notions of the specification\<close>

text \<open>
  A field is present and non-blank when it holds a string with at least one code
  unit that is not white space.
\<close>

definition presentNonBlank :: "jsstring option \<Rightarrow> bool" where
  "presentNonBlank m = (case m of None \<Rightarrow> False | Some s \<Rightarrow> \<not> list_all isWhiteSpace s)"

text \<open>
  The distinct elements of a list in the order of their first occurrence, the
  position of the first occurrence of an element, and the frequency table of a token
  list in first-seen order.
\<close>

definition firstSeen :: "'a list \<Rightarrow> 'a list" where
  "firstSeen xs = rev (remdups (rev xs))"

definition firstIndex :: "'a list \<Rightarrow> 'a \<Rightarrow> nat" where
  "firstIndex xs x = length (takeWhile (\<lambda>y. y \<noteq> x) xs)"

definition entriesOf :: "jsstring list \<Rightarrow> (jsstring \<times> nat) list" where
  "entriesOf p = map (\<lambda>t. (t, count_list p t)) (firstSeen p)"

text \<open>
  The ranking order on tokens: a more frequent token comes first, and of two equally
  frequent tokens the one met first.
\<close>

definition rankOrder :: "jsstring list \<Rightarrow> jsstring \<Rightarrow> jsstring \<Rightarrow> bool" where
  "rankOrder tokens a b \<longleftrightarrow>
     count_list tokens b < count_list tokens a \<or>
     (count_list tokens a = count_list tokens b \<and> firstIndex tokens a < firstIndex tokens b)"

text \<open>
  The character classes the specification names, as sets of code points: white
  space (the white space and line terminator code points of ECMAScript), the ASCII
  digits, the ASCII letters and the Hangul syllables.
\<close>

definition specWhiteSpace :: "nat set" where
  "specWhiteSpace =
     {9, 10, 11, 12, 13, 32, 160, 5760} \<union> {8192..8202} \<union>
     {8232, 8233, 8239, 8287, 12288, 65279}"

definition asciiDigits :: "nat set" where
  "asciiDigits = {48..57}"

definition asciiLetters :: "nat set" where
  "asciiLetters = {65..90} \<union> {97..122}"

definition hangulSyllables :: "nat set" where
  "hangulSyllables = {44032..55203}"

text \<open>
  The maximal runs of the characters that satisfy \<open>P\<close>, from left to right; \<open>cur\<close>
  is the run being read.  The words of a string are its maximal runs of characters
  that are not white space.
\<close>

fun maximalRuns :: "(nat \<Rightarrow> bool) \<Rightarrow> jsstring \<Rightarrow> jsstring \<Rightarrow> jsstring list" where
  "maximalRuns P cur [] = (if cur = [] then [] else [cur])"
| "maximalRuns P cur (c # cs) =
     (if P c then maximalRuns P (cur @ [c]) cs
      else if cur = [] then maximalRuns P [] cs
      else cur # maximalRuns P [] cs)"

definition wordsOf :: "jsstring \<Rightarrow> jsstring list" where
  "wordsOf s = maximalRuns (\<lambda>c. c \<notin> specWhiteSpace) [] s"

text \<open>Words written one after the other with one space between neighbours.\<close>

definition spaceJoined :: "jsstring list \<Rightarrow> jsstring" where
  "spaceJoined ws = (case ws of [] \<Rightarrow> [] | w # rest \<Rightarrow> w @ concat (map (\<lambda>v. 32 # v) rest))"

text \<open>The right half of \<open>trim\<close>, for the proofs.\<close>

definition trimRight :: "jsstring \<Rightarrow> jsstring" where
  "trimRight t = rev (dropWhile isWhiteSpace (rev t))"

text \<open>The stop words as the glossary of the specification lists them.\<close>

definition glossaryStopWords :: "jsstring list" where
  "glossaryStopWords =
     [[44536, 47532, 44256],
      [54616, 51648, 47564],
      [44536, 47084, 45208],
      [44536, 47084, 47732, 49436],
      [46608, 45716],
      [46608, 54620],
      [51060, 44163],
      [51200, 44163],
      [44536, 44163],
      [51080, 45716],
      [54616, 45716],
      [46104, 45716],
      [53685, 54644],
      [45824, 54620],
      [50948, 54620],
      [44057, 51008],
      [47566, 51008],
      S ''the'', S ''is'', S ''are'', S ''and'', S ''or'', S ''for'', S ''with'',
      S ''this'', S ''that'', S ''from'', S ''into'', S ''about'', S ''your'', S ''our'',
      S ''has'', S ''have'', S ''can'', S ''will'', S ''been'', S ''more'', S ''when'',
      S ''they'', S ''them'', S ''their'', S ''what'', S ''which'']"

text \<open>The four kinds of token the specification drops.\<close>

definition excludedToken :: "jsstring \<Rightarrow> bool" where
  "excludedToken t \<longleftrightarrow>
     length t = 1 \<or> list_all (\<lambda>c. c \<in> asciiDigits) t \<or> 30 \<le> length t \<or>
     t \<in> set glossaryStopWords"

text \<open>
  The tokens of a question for the coverage: the words of the lower-cased text that
  have at least two characters.  A search question is covered when its tokens and
  the tokens of some page question have a token in common.
\<close>

definition questionTokens :: "runtime \<Rightarrow> jsstring \<Rightarrow> jsstring list" where
  "questionTokens rt s = filter (\<lambda>t. 2 \<le> length t) (wordsOf (toLowerCase rt s))"

definition coveredBy :: "runtime \<Rightarrow> jsstring list \<Rightarrow> SearchQuestion \<Rightarrow> bool" where
  "coveredBy rt pageQuestions searchQ =
     list_ex (\<lambda>pageQ. set (questionTokens rt (text' searchQ)) \<inter> set (questionTokens rt pageQ) \<noteq> {})
       pageQuestions"

text \<open>
  The key of a question for the deduplication: the text in lower case, its runs of
  white space collapsed to one space, trimmed; that is, the words of the lower-cased
  text with one space between neighbours.
\<close>

definition questionKey :: "runtime \<Rightarrow> SearchQuestion \<Rightarrow> jsstring" where
  "questionKey rt q = spaceJoined (wordsOf (toLowerCase rt (text' q)))"

text \<open>
  The first occurrence per key, in the original order: the element at position \<open>i\<close>
  stays when no element before it has its key.
\<close>

definition firstOccurrences :: "('a \<Rightarrow> 'k) \<Rightarrow> 'a list \<Rightarrow> 'a list" where
  "firstOccurrences key xs =
     map (\<lambda>i. xs ! i) (filter (\<lambda>i. key (xs ! i) \<notin> key ` set (take i xs)) [0..<length xs])"

text \<open>
  What the URL standard makes the \<open>URL\<close> and \<open>URLSearchParams\<close> classes answer to
  the calls of \<open>normalizeUrl\<close> on
  \<open>HTTPS://WWW.Example.com/path/?utm_source=a&keep=1/\<close>: the constructor accepts the
  string; once the protocol is set to \<open>https:\<close> the host name reads
  \<open>www.example.com\<close>; once the host name is set to \<open>example.com\<close> the search reads
  \<open>?utm_source=a&keep=1/\<close>; that search parses into the two pairs; the pair that
  stays is serialised as \<open>keep=1%2F\<close>; and once the search is set to it the URL is
  serialised as \<open>https://example.com/path/?keep=1%2F\<close>.
\<close>

definition standardAnswers :: "'u url_api \<Rightarrow> bool" where
  "standardAnswers api \<longleftrightarrow>
     (case URL_new api (S ''HTTPS://WWW.Example.com/path/?utm_source=a&keep=1/'') of
        None \<Rightarrow> False
      | Some urlObj \<Rightarrow>
          let withScheme = set_protocol api urlObj (S ''https:'');
              withHost = set_hostname api withScheme (S ''example.com'');
              withSearch = set_search api withHost (S ''keep=1%2F'')
          in get_hostname api withScheme = S ''www.example.com'' \<and>
             get_search api withHost = S ''?utm_source=a&keep=1/'' \<and>
             URLSearchParams_new api (S ''?utm_source=a&keep=1/'')
               = [(S ''utm_source'', S ''a''), (S ''keep'', S ''1/'')] \<and>
             URLSearchParams_toString api [(S ''keep'', S ''1/'')] = S ''keep=1%2F'' \<and>
             URL_toString api withSearch = S ''https://example.com/path/?keep=1%2F'')"

section \<open>Properties\<close>

subsection \<open>Evaluating the examples\<close>

lemma S_simps:
  "S [] = []"
  "S (c # cs) = of_char c # S cs"
  by (simp_all add: S_def)

lemma exampleRuntime_sel:
  "toLowerCase exampleRuntime = asciiLower"
  "encodeURIComponent exampleRuntime = encodeURIComponentRef"
  "fetchHtml exampleRuntime u = Inr u"
  by (simp_all add: exampleRuntime_def fetchHtml_def)

subsection \<open>Structure score\<close>

lemma dropWhile_Nil_iff: "dropWhile P xs = [] \<longleftrightarrow> list_all P xs"
  by (simp add: dropWhile_eq_Nil_conv list_all_iff)

lemma trim_Nil_iff: "trim s = [] \<longleftrightarrow> list_all isWhiteSpace s"
proof
  assume "trim s = []"
  then have "dropWhile isWhiteSpace (rev (dropWhile isWhiteSpace s)) = []"
    by (simp add: trim_def)
  then have a: "list_all isWhiteSpace (rev (dropWhile isWhiteSpace s))"
    by (simp only: dropWhile_Nil_iff)
  have "dropWhile isWhiteSpace s = []"
  proof (cases "dropWhile isWhiteSpace s")
    case Nil
    then show ?thesis .
  next
    case (Cons c cs)
    then have "\<not> isWhiteSpace c"
      by (metis hd_dropWhile list.distinct(1) list.sel(1))
    moreover have "isWhiteSpace c"
      using a Cons by (simp add: list_all_iff)
    ultimately show ?thesis by simp
  qed
  then show "list_all isWhiteSpace s"
    by (simp only: dropWhile_Nil_iff)
next
  assume "list_all isWhiteSpace s"
  then have d: "dropWhile isWhiteSpace s = []"
    by (simp only: dropWhile_Nil_iff)
  show "trim s = []"
    unfolding trim_def d by simp
qed

lemma hasText_iff: "hasText m = presentNonBlank m"
proof (cases m)
  case None
  then show ?thesis by (simp add: hasText_def presentNonBlank_def)
next
  case (Some s)
  have "(s \<noteq> [] \<and> trim s \<noteq> []) = (\<not> list_all isWhiteSpace s)"
    using trim_Nil_iff [of s] by (cases s) auto
  with Some show ?thesis by (simp add: hasText_def presentNonBlank_def)
qed

text \<open>
  C3.  The structure score is 40 plus 10 for each of four independent conditions:
  the title is present and non-blank, the description is present and non-blank,
  there are at least two headings, there are at least three page questions.  The
  clamp to [0,100] never changes it, and the score lies between 40 and 100, for
  each of the 16 combinations of the conditions.
\<close>

theorem calculateStructureScore_increments:
  "calculateStructureScore meta headings pageQuestions =
     40 + 10 * (of_bool (presentNonBlank (title meta))
              + of_bool (presentNonBlank (description meta))
              + of_bool (2 \<le> length headings)
              + of_bool (3 \<le> length pageQuestions))
   \<and> 40 \<le> calculateStructureScore meta headings pageQuestions
   \<and> calculateStructureScore meta headings pageQuestions \<le> 100"
  by (simp add: calculateStructureScore_def hasText_iff Let_def)

subsection \<open>The frequency table and the ranking\<close>

lemma firstSeen_snoc:
  "firstSeen (p @ [t]) = (if t \<in> set p then firstSeen p else firstSeen p @ [t])"
  by (simp add: firstSeen_def)

lemma set_firstSeen [simp]: "set (firstSeen p) = set p"
  by (simp add: firstSeen_def)

lemma distinct_firstSeen [simp]: "distinct (firstSeen p)"
  by (simp add: firstSeen_def)

lemma mapSet_map:
  "distinct xs \<Longrightarrow>
   mapSet (map (\<lambda>x. (x, f x)) xs) t v =
     (if t \<in> set xs then map (\<lambda>x. (x, if x = t then v else f x)) xs
      else map (\<lambda>x. (x, f x)) xs @ [(t, v)])"
  by (induction xs) auto

lemma mapGetOr0_map:
  "mapGetOr0 (map (\<lambda>x. (x, f x)) xs) t = (if t \<in> set xs then f t else 0)"
  by (induction xs) (auto simp: mapGetOr0_def)

lemma mapGetOr0_entriesOf: "mapGetOr0 (entriesOf p) t = count_list p t"
  by (simp add: entriesOf_def mapGetOr0_map count_list_0_iff)

lemma mapSet_entriesOf:
  "mapSet (entriesOf p) t (Suc (count_list p t)) = entriesOf (p @ [t])"
  by (auto simp: entriesOf_def mapSet_map firstSeen_snoc count_list_0_iff)

lemma countTokens_entriesOf: "countTokens (entriesOf p) ts = entriesOf (p @ ts)"
proof (induction ts arbitrary: p)
  case Nil
  then show ?case by simp
next
  case (Cons t ts)
  have "countTokens (entriesOf p) (t # ts) = countTokens (entriesOf (p @ [t])) ts"
    by (simp add: mapGetOr0_entriesOf mapSet_entriesOf)
  also have "\<dots> = entriesOf ((p @ [t]) @ ts)"
    by (rule Cons.IH)
  finally show ?case by simp
qed

lemma countTokens_Nil: "countTokens [] ts = entriesOf ts"
  using countTokens_entriesOf [of "[]" ts] by (simp add: entriesOf_def firstSeen_def)

lemma firstIndex_append_mem: "a \<in> set p \<Longrightarrow> firstIndex (p @ q) a = firstIndex p a"
  by (simp add: firstIndex_def)

lemma firstIndex_less: "a \<in> set p \<Longrightarrow> firstIndex p a < length p"
  unfolding firstIndex_def by (induction p) auto

lemma firstIndex_new: "t \<notin> set p \<Longrightarrow> firstIndex (p @ [t]) t = length p"
  unfolding firstIndex_def by (induction p) auto

lemma sorted_firstSeen:
  "sorted_wrt (\<lambda>a b. firstIndex p a < firstIndex p b) (firstSeen p)"
proof (induction p rule: rev_induct)
  case Nil
  then show ?case by (simp add: firstSeen_def)
next
  case (snoc t p)
  have old: "sorted_wrt (\<lambda>a b. firstIndex (p @ [t]) a < firstIndex (p @ [t]) b) (firstSeen p)"
    by (rule sorted_wrt_mono_rel [OF _ snoc.IH]) (simp add: firstIndex_append_mem)
  show ?case
  proof (cases "t \<in> set p")
    case True
    with old show ?thesis by (simp add: firstSeen_snoc)
  next
    case False
    then show ?thesis
      using old
      by (simp add: firstSeen_snoc sorted_wrt_append firstIndex_new
          firstIndex_append_mem firstIndex_less)
  qed
qed

lemma insort_key_lex:
  assumes "sorted_wrt (\<lambda>a b. f a < f b \<or> (f a = f b \<and> R a b)) ys"
    and "\<forall>y\<in>set ys. R x y"
  shows "sorted_wrt (\<lambda>a b. f a < f b \<or> (f a = f b \<and> R a b)) (insort_key f x ys)"
  using assms
proof (induction ys)
  case Nil
  then show ?case by simp
next
  case (Cons y ys)
  show ?case
  proof (cases "f x \<le> f y")
    case True
    then show ?thesis using Cons.prems by (auto simp: less_le)
  next
    case False
    then show ?thesis using Cons by (auto simp: set_insort_key)
  qed
qed

lemma sort_key_lex:
  "sorted_wrt R xs \<Longrightarrow>
   sorted_wrt (\<lambda>a b. f a < f b \<or> (f a = f b \<and> R a b)) (sort_key f xs)"
proof (induction xs)
  case Nil
  then show ?case by simp
next
  case (Cons x xs)
  then show ?case
    by (simp add: sort_key_simps insort_key_lex)
qed


lemma entriesOf_snd: "e \<in> set (entriesOf p) \<Longrightarrow> snd e = count_list p (fst e) \<and> fst e \<in> set p"
  by (auto simp: entriesOf_def)

lemma map_fst_entriesOf: "map fst (entriesOf p) = firstSeen p"
  by (simp add: entriesOf_def comp_def)

lemma sorted_entriesOf:
  "sorted_wrt (\<lambda>a b. firstIndex p (fst a) < firstIndex p (fst b)) (entriesOf p)"
  using sorted_firstSeen [of p] by (simp add: entriesOf_def sorted_wrt_map)

lemma map_value_rankEntries:
  "map value' (rankEntries es) = map fst (take 10 (sort_key (\<lambda>e. - int (snd e)) es))"
  by (simp add: rankEntries_def Let_def comp_def case_prod_unfold)

lemma rankOrder_entries:
  "sorted_wrt (rankOrder p) (map fst (take 10 (sort_key (\<lambda>e. - int (snd e)) (entriesOf p))))"
proof -
  let ?f = "\<lambda>e::jsstring \<times> nat. - int (snd e)"
  let ?R = "\<lambda>a b. firstIndex p (fst a) < firstIndex p (fst b)"
  let ?s = "sort_key ?f (entriesOf p)"
  have "sorted_wrt (\<lambda>a b. ?f a < ?f b \<or> (?f a = ?f b \<and> ?R a b)) ?s"
    by (rule sort_key_lex [OF sorted_entriesOf])
  then have "sorted_wrt (\<lambda>a b. rankOrder p (fst a) (fst b)) ?s"
  proof (rule sorted_wrt_mono_rel [rotated])
    fix a b
    assume "a \<in> set ?s" "b \<in> set ?s" "?f a < ?f b \<or> (?f a = ?f b \<and> ?R a b)"
    then show "rankOrder p (fst a) (fst b)"
      using entriesOf_snd [of a p] entriesOf_snd [of b p]
      by (auto simp: rankOrder_def)
  qed
  then have "sorted_wrt (\<lambda>a b. rankOrder p (fst a) (fst b)) (take 10 ?s)"
    by (rule sorted_wrt_take)
  then show ?thesis by (simp add: sorted_wrt_map)
qed

lemma sorted_counts_top:
  "sorted_wrt (\<lambda>a b. snd b \<le> snd a) (take 10 (sort_key (\<lambda>e::jsstring \<times> nat. - int (snd e)) es))"
proof -
  have "sorted (map (\<lambda>e::jsstring \<times> nat. - int (snd e)) (sort_key (\<lambda>e. - int (snd e)) es))"
    by (rule sorted_sort_key)
  then have "sorted_wrt (\<lambda>a b. snd b \<le> snd a) (sort_key (\<lambda>e::jsstring \<times> nat. - int (snd e)) es)"
    by (simp add: sorted_map)
  then show ?thesis by (rule sorted_wrt_take)
qed

lemma rankEntries_props:
  assumes pos: "\<forall>e\<in>set es. 1 \<le> snd e"
  shows "length (rankEntries es) \<le> 10"
    and "list_all (\<lambda>k. 0 \<le> score k \<and> score k \<le> 1) (rankEntries es)"
    and "sorted_wrt (\<lambda>a b. score b \<le> score a) (rankEntries es)"
    and "rankEntries es \<noteq> [] \<longrightarrow> score (hd (rankEntries es)) = 1"
proof -
  let ?top = "take 10 (sort_key (\<lambda>e::jsstring \<times> nat. - int (snd e)) es)"
  have srt: "sorted_wrt (\<lambda>a b. snd b \<le> snd a) ?top"
    by (rule sorted_counts_top)
  have sub: "set ?top \<subseteq> set es"
    using set_take_subset [of 10 "sort_key (\<lambda>e. - int (snd e)) es"] by simp
  show "length (rankEntries es) \<le> 10"
    by (simp add: rankEntries_def Let_def)
  show "list_all (\<lambda>k. 0 \<le> score k \<and> score k \<le> 1) (rankEntries es)"
    and "sorted_wrt (\<lambda>a b. score b \<le> score a) (rankEntries es)"
    and "rankEntries es \<noteq> [] \<longrightarrow> score (hd (rankEntries es)) = 1"
  proof (atomize (full), cases ?top)
    case Nil
    then show "list_all (\<lambda>k. 0 \<le> score k \<and> score k \<le> 1) (rankEntries es) \<and>
      sorted_wrt (\<lambda>a b. score b \<le> score a) (rankEntries es) \<and>
      (rankEntries es \<noteq> [] \<longrightarrow> score (hd (rankEntries es)) = 1)"
      by (simp add: rankEntries_def Let_def)
  next
    case (Cons e0 rest)
    let ?m = "snd e0"
    let ?g = "\<lambda>e::jsstring \<times> nat. \<lparr>value' = fst e, score = of_nat (snd e) / of_nat ?m\<rparr>"
    have r: "rankEntries es = map ?g ?top"
      unfolding rankEntries_def Let_def Cons by (simp add: case_prod_unfold)
    have "e0 \<in> set es" using sub Cons by auto
    then have m: "1 \<le> ?m" using pos by blast
    have le: "\<And>e. e \<in> set ?top \<Longrightarrow> snd e \<le> ?m"
      using srt Cons by auto
    have a: "list_all (\<lambda>k. 0 \<le> score k \<and> score k \<le> 1) (map ?g ?top)"
      using le m by (simp add: list_all_iff)
    have "sorted_wrt (\<lambda>a b. score (?g b) \<le> score (?g a)) ?top"
      by (rule sorted_wrt_mono_rel [OF _ srt]) (simp add: divide_right_mono)
    then have b: "sorted_wrt (\<lambda>a b. score b \<le> score a) (map ?g ?top)"
      by (simp add: sorted_wrt_map)
    have c: "score (hd (map ?g ?top)) = 1"
      using m by (simp add: Cons)
    show "list_all (\<lambda>k. 0 \<le> score k \<and> score k \<le> 1) (rankEntries es) \<and>
      sorted_wrt (\<lambda>a b. score b \<le> score a) (rankEntries es) \<and>
      (rankEntries es \<noteq> [] \<longrightarrow> score (hd (rankEntries es)) = 1)"
      unfolding r using a b c by blast
  qed
qed

lemma entriesOf_pos: "\<forall>e\<in>set (entriesOf p). 1 \<le> snd e"
proof
  fix e assume e: "e \<in> set (entriesOf p)"
  then have "snd e = count_list p (fst e)" "fst e \<in> set p"
    using entriesOf_snd by blast+
  then show "1 \<le> snd e"
    using count_list_0_iff [of p "fst e"] by simp
qed

text \<open>
  C4.  \<open>extractSeedKeywords\<close> returns at most ten keywords, every score lies
  between 0 and 1, the scores never increase along the sequence, and the first
  score of a non-empty sequence is 1.
\<close>

theorem extractSeedKeywords_scores:
  "length (extractSeedKeywords rt m hs content) \<le> 10
   \<and> list_all (\<lambda>k. 0 \<le> score k \<and> score k \<le> 1) (extractSeedKeywords rt m hs content)
   \<and> sorted_wrt (\<lambda>a b. score b \<le> score a) (extractSeedKeywords rt m hs content)
   \<and> (extractSeedKeywords rt m hs content \<noteq> [] \<longrightarrow>
        score (hd (extractSeedKeywords rt m hs content)) = 1)"
proof (cases "extractSeedKeywords rt m hs content = []")
  case True
  then show ?thesis by simp
next
  case False
  then have "extractSeedKeywords rt m hs content =
      rankEntries (entriesOf (tokenize rt (assembleText m hs content)))"
    by (simp add: extractSeedKeywords_def Let_def countTokens_Nil split: if_splits)
  then show ?thesis
    using rankEntries_props [OF entriesOf_pos] by simp
qed

lemma example_assemble: "assembleText exampleMeta [] [] = S ''Geo geo score''"
  by (simp add: assembleText_def exampleMeta_def pushIf_def S_simps)

lemma example_nonblank: "trim (S ''Geo geo score'') \<noteq> []"
  by (simp add: trim_def isWhiteSpace_def S_simps)

lemma example_tokens:
  "tokenize exampleRuntime (S ''Geo geo score'') = [S ''geo'', S ''geo'', S ''score'']"
  by (simp add: tokenize_def exampleRuntime_sel asciiLower_def isWordChar_def isWhiteSpace_def
      splitWs_def keepToken_def allDigits_def isDigit_def STOP_WORDS_def S_simps Let_def)

lemma example_counts:
  "countTokens [] [S ''geo'', S ''geo'', S ''score''] = [(S ''geo'', 2), (S ''score'', 1)]"
  by (simp add: mapGetOr0_def S_simps)

lemma example_rank:
  "rankEntries [(S ''geo'', 2), (S ''score'', 1)] =
     [\<lparr>value' = S ''geo'', score = 1\<rparr>, \<lparr>value' = S ''score'', score = 1 / 2\<rparr>]"
  by (simp add: rankEntries_def Let_def)

lemma example_keywords:
  "extractSeedKeywords exampleRuntime exampleMeta [] [] =
     [\<lparr>value' = S ''geo'', score = 1\<rparr>, \<lparr>value' = S ''score'', score = 1 / 2\<rparr>]"
  unfolding extractSeedKeywords_def example_assemble Let_def example_tokens example_counts
    example_rank
  using example_nonblank by simp

theorem extractSeedKeywords_scores_witness:
  "extractSeedKeywords exampleRuntime exampleMeta [] [] \<noteq> []
   \<and> score (hd (extractSeedKeywords exampleRuntime exampleMeta [] [])) = 1"
proof -
  have ne: "extractSeedKeywords exampleRuntime exampleMeta [] [] \<noteq> []"
    by (simp add: example_keywords)
  have "extractSeedKeywords exampleRuntime exampleMeta [] [] \<noteq> [] \<longrightarrow>
        score (hd (extractSeedKeywords exampleRuntime exampleMeta [] [])) = 1"
    using extractSeedKeywords_scores [of exampleRuntime exampleMeta "[]" "[]"] by blast
  with ne show ?thesis by blast
qed

lemma insort_key_map:
  "insort_key k (h x) (map h ys) = map h (insort_key (\<lambda>y. k (h y)) x ys)"
  by (induction ys) simp_all

lemma sort_key_map_entries:
  "sort_key k (map h xs) = map h (sort_key (\<lambda>y. k (h y)) xs)"
  by (induction xs) (simp_all add: insort_key_map)

lemma ranked_closed_form:
  "map fst (take 10 (sort_key (\<lambda>e. - int (snd e)) (entriesOf p)))
     = take 10 (sort_key (\<lambda>t. - int (count_list p t)) (firstSeen p))"
  by (simp add: entriesOf_def sort_key_map_entries take_map comp_def)

lemma extractSeedKeywords_closed_form:
  "trim (assembleText m hs content) \<noteq> [] \<Longrightarrow>
   map value' (extractSeedKeywords rt m hs content) =
     take 10 (sort_key (\<lambda>t. - int (count_list (seedTokens rt m hs content) t))
                (firstSeen (seedTokens rt m hs content)))"
  by (simp add: extractSeedKeywords_def seedTokens_def Let_def countTokens_Nil
      map_value_rankEntries ranked_closed_form firstSeen_def)

text \<open>
  C5.  The keywords come in the ranking order of their tokens: by descending
  frequency in the token list, and among equally frequent tokens by the position of
  the first occurrence.  Unless the assembled text is blank, they are the first ten
  of the distinct tokens, taken in first-seen order and sorted stably by descending
  frequency.
\<close>

theorem extractSeedKeywords_order:
  "sorted_wrt (rankOrder (seedTokens rt m hs content))
     (map value' (extractSeedKeywords rt m hs content))
   \<and> (trim (assembleText m hs content) \<noteq> [] \<longrightarrow>
        map value' (extractSeedKeywords rt m hs content) =
          take 10 (sort_key (\<lambda>t. - int (count_list (seedTokens rt m hs content) t))
                     (firstSeen (seedTokens rt m hs content))))"
proof -
  have "sorted_wrt (rankOrder (seedTokens rt m hs content))
     (map value' (extractSeedKeywords rt m hs content))"
    by (simp add: extractSeedKeywords_def seedTokens_def Let_def countTokens_Nil
        map_value_rankEntries rankOrder_entries)
  then show ?thesis
    using extractSeedKeywords_closed_form by blast
qed

theorem extractSeedKeywords_order_witness:
  "trim (assembleText exampleMeta [] []) \<noteq> []
   \<and> map value' (extractSeedKeywords exampleRuntime exampleMeta [] []) =
       take 10 (sort_key (\<lambda>t. - int (count_list (seedTokens exampleRuntime exampleMeta [] []) t))
                  (firstSeen (seedTokens exampleRuntime exampleMeta [] [])))"
proof -
  have ne: "trim (assembleText exampleMeta [] []) \<noteq> []"
    unfolding example_assemble by (rule example_nonblank)
  have "trim (assembleText exampleMeta [] []) \<noteq> [] \<longrightarrow>
        map value' (extractSeedKeywords exampleRuntime exampleMeta [] []) =
          take 10 (sort_key (\<lambda>t. - int (count_list (seedTokens exampleRuntime exampleMeta [] []) t))
                     (firstSeen (seedTokens exampleRuntime exampleMeta [] [])))"
    using extractSeedKeywords_order [of exampleRuntime exampleMeta "[]" "[]"] by blast
  with ne show ?thesis by blast
qed

subsection \<open>Character classes and words\<close>

lemma isWhiteSpace_spec: "isWhiteSpace = (\<lambda>c. c \<in> specWhiteSpace)"
  by (rule ext) (auto simp: isWhiteSpace_def specWhiteSpace_def)

lemma isWordChar_spec: "isWordChar = (\<lambda>c. c \<in> asciiDigits \<union> asciiLetters \<union> hangulSyllables)"
  by (rule ext) (auto simp: isWordChar_def asciiDigits_def asciiLetters_def hangulSyllables_def)

lemma isDigit_spec: "isDigit = (\<lambda>c. c \<in> asciiDigits)"
  by (rule ext) (auto simp: isDigit_def asciiDigits_def)

lemma maximalRuns_nonempty: "[] \<notin> set (maximalRuns P cur s)"
  by (induction s arbitrary: cur) auto

lemma maximalRuns_dropWhile:
  "maximalRuns P [] (dropWhile (\<lambda>c. \<not> P c) s) = maximalRuns P [] s"
  by (induction s) auto

lemma splitRuns_maximalRuns:
  "(b \<longrightarrow> cur = []) \<Longrightarrow>
   filter (\<lambda>t. t \<noteq> []) (splitRuns b cur s) = maximalRuns (\<lambda>c. \<not> isWhiteSpace c) cur s"
  by (induction s arbitrary: b cur) auto

lemma splitWs_words: "filter (\<lambda>t. t \<noteq> []) (splitWs s) = wordsOf s"
  unfolding splitWs_def wordsOf_def
  using splitRuns_maximalRuns [of False "[]" s] by (simp add: isWhiteSpace_spec)

subsection \<open>Tokenisation\<close>

lemma glossary_STOP_WORDS: "glossaryStopWords = STOP_WORDS"
  by (simp add: glossaryStopWords_def STOP_WORDS_def)

lemma isWhiteSpace_not_word: "isWhiteSpace c \<Longrightarrow> \<not> isWordChar c"
  unfolding isWhiteSpace_def isWordChar_def by arith

lemma space_isWhiteSpace: "isWhiteSpace 32"
  by (simp add: isWhiteSpace_def)

lemma split_cleaned:
  "(b \<longrightarrow> cur = [] \<and> (s = [] \<or> isWordChar (hd s))) \<Longrightarrow>
   filter (\<lambda>t. 0 < length t) (splitRuns b cur (replaceRuns (\<lambda>c. \<not> isWordChar c) 32 s))
     = maximalRuns isWordChar cur s"
proof (induction "\<lambda>c. \<not> isWordChar c" "32::nat" s arbitrary: b cur rule: replaceRuns.induct)
  case 1
  then show ?case by simp
next
  case (2 c cs)
  show ?case
  proof (cases "isWordChar c")
    case True
    then have nws: "\<not> isWhiteSpace c"
      using isWhiteSpace_not_word by blast
    have "filter (\<lambda>t. 0 < length t)
            (splitRuns False (cur @ [c]) (replaceRuns (\<lambda>c. \<not> isWordChar c) 32 cs))
          = maximalRuns isWordChar (cur @ [c]) cs"
      using True by (intro "2.hyps"(2)) simp_all
    then show ?thesis using True nws by simp
  next
    case False
    with "2.prems" have b: "\<not> b" by auto
    let ?rest = "dropWhile (\<lambda>c. \<not> isWordChar c) cs"
    have hd: "?rest = [] \<or> isWordChar (hd ?rest)"
      using hd_dropWhile [of "\<lambda>c. \<not> isWordChar c" cs] by auto
    have "filter (\<lambda>t. 0 < length t)
            (splitRuns True [] (replaceRuns (\<lambda>c. \<not> isWordChar c) 32 ?rest))
          = maximalRuns isWordChar [] ?rest"
      using False hd by (intro "2.hyps"(1)) simp_all
    then show ?thesis
      using False b by (simp add: space_isWhiteSpace maximalRuns_dropWhile)
  qed
qed

lemma keep_iff_not_excluded:
  "t \<noteq> [] \<Longrightarrow> (keepToken t \<and> t \<notin> set STOP_WORDS) = (\<not> excludedToken t)"
  by (auto simp: keepToken_def excludedToken_def allDigits_def glossary_STOP_WORDS isDigit_spec)

lemma tokenize_runs:
  "tokenize rt rawText =
     filter (\<lambda>t. \<not> excludedToken t) (maximalRuns isWordChar [] (toLowerCase rt rawText))"
proof -
  have sc: "filter (\<lambda>token. 0 < length token)
               (splitWs (replaceRuns (\<lambda>c. \<not> isWordChar c) 32 (toLowerCase rt rawText)))
             = maximalRuns isWordChar [] (toLowerCase rt rawText)"
    unfolding splitWs_def by (rule split_cleaned) simp
  have "tokenize rt rawText =
      filter (\<lambda>token. token \<notin> set STOP_WORDS)
        (filter keepToken (maximalRuns isWordChar [] (toLowerCase rt rawText)))"
    unfolding tokenize_def Let_def sc ..
  also have "\<dots> = filter (\<lambda>t. keepToken t \<and> t \<notin> set STOP_WORDS)
        (maximalRuns isWordChar [] (toLowerCase rt rawText))"
    by (simp add: conj_commute)
  also have "\<dots> = filter (\<lambda>t. \<not> excludedToken t) (maximalRuns isWordChar [] (toLowerCase rt rawText))"
  proof (rule filter_cong [OF refl])
    fix t assume "t \<in> set (maximalRuns isWordChar [] (toLowerCase rt rawText))"
    then have "t \<noteq> []" using maximalRuns_nonempty by metis
    then show "(keepToken t \<and> t \<notin> set STOP_WORDS) = (\<not> excludedToken t)"
      by (rule keep_iff_not_excluded)
  qed
  finally show ?thesis .
qed

lemma tokenize_pipeline:
  "tokenize rt rawText =
     filter (\<lambda>t. \<not> excludedToken t)
       (wordsOf (replaceRuns (\<lambda>c. \<not> isWordChar c) 32 (toLowerCase rt rawText)))"
proof -
  let ?cleaned = "replaceRuns (\<lambda>c. \<not> isWordChar c) 32 (toLowerCase rt rawText)"
  have "filter (\<lambda>t. t \<noteq> []) (splitWs ?cleaned) = maximalRuns isWordChar [] (toLowerCase rt rawText)"
    using split_cleaned [of False "[]" "toLowerCase rt rawText"] by (simp add: splitWs_def)
  then show ?thesis
    by (simp add: tokenize_runs splitWs_words)
qed

lemma example_tokenize:
  "tokenize exampleRuntime exampleText =
     [S ''geo'', S ''score'', S ''of'', S ''x1'', [54620, 44544],
      S ''bbbbbbbbbbbbbbbbbbbbbbbbbbbbb'']"
  by (simp add: tokenize_def exampleText_def exampleRuntime_sel asciiLower_def isWordChar_def
      isWhiteSpace_def splitWs_def keepToken_def allDigits_def isDigit_def STOP_WORDS_def
      S_simps Let_def)

text \<open>
  C6.  The tokens of keyword extraction are the maximal runs of ASCII digits, ASCII
  letters and Hangul syllables of the lower-cased text, in order, without the runs of
  length 1, the runs made of digits only, the runs of length 30 or more, and the
  stop words of the glossary; nothing else is dropped.  They are also what is left of
  the words of the text in which every maximal run of other characters has been
  replaced by one space.  The example text gives six tokens.
\<close>

theorem tokenize_spec:
  "tokenize rt rawText =
     filter (\<lambda>t. \<not> excludedToken t)
       (maximalRuns (\<lambda>c. c \<in> asciiDigits \<union> asciiLetters \<union> hangulSyllables) []
          (toLowerCase rt rawText))
   \<and> tokenize rt rawText =
     filter (\<lambda>t. \<not> excludedToken t)
       (wordsOf (replaceRuns (\<lambda>c. c \<notin> asciiDigits \<union> asciiLetters \<union> hangulSyllables) 32
          (toLowerCase rt rawText)))
   \<and> tokenize exampleRuntime exampleText =
     [S ''geo'', S ''score'', S ''of'', S ''x1'', [54620, 44544],
      S ''bbbbbbbbbbbbbbbbbbbbbbbbbbbbb'']"
  using tokenize_runs [of rt rawText, unfolded isWordChar_spec]
    tokenize_pipeline [of rt rawText, unfolded isWordChar_spec] example_tokenize
  by (intro conjI)

subsection \<open>Coverage\<close>

lemma coverageTokens_spec: "coverageTokens rt s = questionTokens rt s"
proof -
  have "filter (\<lambda>token. 2 \<le> length token) (splitWs (toLowerCase rt s))
        = filter (\<lambda>token. 2 \<le> length token) (filter (\<lambda>t. t \<noteq> []) (splitWs (toLowerCase rt s)))"
    by (auto intro: filter_cong)
  then show ?thesis
    by (simp only: coverageTokens_def questionTokens_def splitWs_words)
qed

lemma filter_length_pos: "(1 \<le> length (filter P xs)) = (\<exists>x\<in>set xs. P x)"
proof -
  have "(1 \<le> length (filter P xs)) = (filter P xs \<noteq> [])"
    by (cases "filter P xs") simp_all
  then show ?thesis by (simp add: filter_empty_conv)
qed

lemma isCovered_list_ex:
  "isCovered rt searchTokens pageQuestions =
     list_ex (\<lambda>pageQ. set searchTokens \<inter> set (coverageTokens rt pageQ) \<noteq> {}) pageQuestions"
proof (induction pageQuestions)
  case Nil
  then show ?case by simp
next
  case (Cons pageQ pageQuestions)
  have "(1 \<le> length (filter (\<lambda>token. token \<in> set (coverageTokens rt pageQ)) searchTokens))
        = (set searchTokens \<inter> set (coverageTokens rt pageQ) \<noteq> {})"
    unfolding filter_length_pos by blast
  with Cons show ?case by (simp add: Let_def)
qed

lemma countCovered_filter:
  "countCovered rt pageQuestions n searchQuestions =
     n + length (filter (coveredBy rt pageQuestions) searchQuestions)"
  by (induction searchQuestions arbitrary: n)
     (simp_all add: Let_def isCovered_list_ex coveredBy_def coverageTokens_spec)

lemma calculateQuestionCoverage_eq:
  "calculateQuestionCoverage rt pageQuestions searchQuestions =
     (if searchQuestions = [] then 0
      else of_nat (length (filter (coveredBy rt pageQuestions) searchQuestions))
           / of_nat (length searchQuestions))"
  by (simp add: calculateQuestionCoverage_def Let_def countCovered_filter)

lemma calculateQuestionCoverage_bounds:
  "0 \<le> calculateQuestionCoverage rt pageQuestions searchQuestions
   \<and> calculateQuestionCoverage rt pageQuestions searchQuestions \<le> 1"
proof (cases "searchQuestions = []")
  case True
  then show ?thesis by (simp add: calculateQuestionCoverage_def)
next
  case False
  have "length (filter (coveredBy rt pageQuestions) searchQuestions) \<le> length searchQuestions"
    by (rule length_filter_le)
  moreover have "0 < (of_nat (length searchQuestions) :: rat)"
    using False by simp
  ultimately show ?thesis using False
    by (simp add: calculateQuestionCoverage_eq)
qed

lemma example_coverage:
  "calculateQuestionCoverage exampleRuntime [S ''How much does GEO cost'']
     [questionOf (S ''What is the COST of geo?''), questionOf (S ''a b c'')] = 1 / 2"
  by (simp add: calculateQuestionCoverage_def coverageTokens_def questionOf_def splitWs_def
      exampleRuntime_sel asciiLower_def isWhiteSpace_def S_simps Let_def)

text \<open>
  C2.  The coverage is 0 for an empty list of search questions and for an empty list
  of page questions; otherwise it is the number of covered search questions divided
  by the number of search questions, where a search question is covered when its
  tokens (the words of the lower-cased text that have at least two characters) share
  a token with the tokens of some page question.  It lies between 0 and 1.  In the
  example one of the two search questions is covered.
\<close>

theorem calculateQuestionCoverage_ratio:
  "calculateQuestionCoverage rt pageQuestions searchQuestions =
     (if searchQuestions = [] then 0
      else of_nat (length (filter (coveredBy rt pageQuestions) searchQuestions))
           / of_nat (length searchQuestions))
   \<and> calculateQuestionCoverage rt pageQuestions [] = 0
   \<and> calculateQuestionCoverage rt [] searchQuestions = 0
   \<and> 0 \<le> calculateQuestionCoverage rt pageQuestions searchQuestions
   \<and> calculateQuestionCoverage rt pageQuestions searchQuestions \<le> 1
   \<and> calculateQuestionCoverage exampleRuntime [S ''How much does GEO cost'']
       [questionOf (S ''What is the COST of geo?''), questionOf (S ''a b c'')] = 1 / 2"
proof -
  have a: "calculateQuestionCoverage rt pageQuestions [] = 0"
    by (simp add: calculateQuestionCoverage_def)
  have "filter (coveredBy rt []) searchQuestions = []"
    by (simp add: coveredBy_def)
  then have b: "calculateQuestionCoverage rt [] searchQuestions = 0"
    by (simp add: calculateQuestionCoverage_eq)
  show ?thesis
    using calculateQuestionCoverage_eq [of rt pageQuestions searchQuestions] a b
      calculateQuestionCoverage_bounds [of rt pageQuestions searchQuestions] example_coverage
    by (intro conjI) simp_all
qed

subsection \<open>The deduplication key\<close>

lemma trim_trimRight: "trim s = trimRight (dropWhile isWhiteSpace s)"
  by (simp add: trim_def trimRight_def)

lemma trimRight_id: "list_all (\<lambda>c. \<not> isWhiteSpace c) cur \<Longrightarrow> trimRight cur = cur"
proof -
  assume a: "list_all (\<lambda>c. \<not> isWhiteSpace c) cur"
  have "dropWhile isWhiteSpace (rev cur) = rev cur"
  proof (cases "rev cur")
    case Nil
    then show ?thesis by simp
  next
    case (Cons x xs)
    then have "x \<in> set cur" by (metis list.set_intros(1) set_rev)
    with a have "\<not> isWhiteSpace x" by (simp add: list_all_iff)
    with Cons show ?thesis by simp
  qed
  then show ?thesis by (simp add: trimRight_def)
qed

lemma trimRight_Nil_iff: "trimRight b = [] \<longleftrightarrow> (\<forall>x\<in>set b. isWhiteSpace x)"
  by (simp add: trimRight_def dropWhile_eq_Nil_conv)

lemma trimRight_append:
  "trimRight (a @ b) = (if trimRight b = [] then trimRight a else a @ trimRight b)"
proof (cases "\<forall>x\<in>set b. isWhiteSpace x")
  case True
  then have "dropWhile isWhiteSpace (rev b @ rev a) = dropWhile isWhiteSpace (rev a)"
    by (intro dropWhile_append2) simp
  with True show ?thesis by (simp add: trimRight_def dropWhile_eq_Nil_conv)
next
  case False
  then obtain x where "x \<in> set (rev b)" "\<not> isWhiteSpace x" by auto
  then have e: "dropWhile isWhiteSpace (rev b @ rev a) = dropWhile isWhiteSpace (rev b) @ rev a"
    by (rule dropWhile_append1)
  have ne: "trimRight b \<noteq> []"
    using False trimRight_Nil_iff by blast
  have "trimRight (a @ b) = a @ trimRight b"
    by (simp add: trimRight_def e)
  with ne show ?thesis by simp
qed

lemma replaceRuns_lead:
  "s = [] \<or> \<not> isWhiteSpace (hd s) \<Longrightarrow>
   dropWhile isWhiteSpace (replaceRuns isWhiteSpace 32 s) = replaceRuns isWhiteSpace 32 s"
  by (cases s) auto

lemma dropWhile_replaceRuns:
  "dropWhile isWhiteSpace (replaceRuns isWhiteSpace 32 s)
     = replaceRuns isWhiteSpace 32 (dropWhile isWhiteSpace s)"
proof (cases s)
  case Nil
  then show ?thesis by simp
next
  case (Cons c cs)
  show ?thesis
  proof (cases "isWhiteSpace c")
    case True
    let ?d = "dropWhile isWhiteSpace cs"
    have "?d = [] \<or> \<not> isWhiteSpace (hd ?d)"
      using hd_dropWhile [of isWhiteSpace cs] by auto
    then have "dropWhile isWhiteSpace (replaceRuns isWhiteSpace 32 ?d) = replaceRuns isWhiteSpace 32 ?d"
      by (rule replaceRuns_lead)
    with True Cons show ?thesis by (simp add: isWhiteSpace_def)
  next
    case False
    with Cons show ?thesis by simp
  qed
qed

lemma spaceJoined_Nil_iff: "[] \<notin> set ws \<Longrightarrow> spaceJoined ws = [] \<longleftrightarrow> ws = []"
  by (cases ws) (auto simp: spaceJoined_def)

lemma spaceJoined_Cons2:
  "spaceJoined (a # w # ws) = a @ 32 # spaceJoined (w # ws)"
  by (simp add: spaceJoined_def)

lemma trimRight_collapse:
  "list_all (\<lambda>c. \<not> isWhiteSpace c) cur \<Longrightarrow>
   cur \<noteq> [] \<or> s = [] \<or> \<not> isWhiteSpace (hd s) \<Longrightarrow>
   trimRight (cur @ replaceRuns isWhiteSpace 32 s)
     = spaceJoined (maximalRuns (\<lambda>c. \<not> isWhiteSpace c) cur s)"
proof (induction isWhiteSpace "32::nat" s arbitrary: cur rule: replaceRuns.induct)
  case 1
  then show ?case by (simp add: trimRight_id spaceJoined_def)
next
  case (2 c cs)
  let ?R = "replaceRuns isWhiteSpace 32"
  let ?M = "maximalRuns (\<lambda>c. \<not> isWhiteSpace c)"
  show ?case
  proof (cases "isWhiteSpace c")
    case True
    with "2.prems" have ne: "cur \<noteq> []" by simp
    let ?d = "dropWhile isWhiteSpace cs"
    have hd: "?d = [] \<or> \<not> isWhiteSpace (hd ?d)"
      using hd_dropWhile [of isWhiteSpace cs] by auto
    have ih: "trimRight (?R ?d) = spaceJoined (?M [] ?d)"
      using "2.hyps"(1) [of "[]"] True hd by simp
    have m: "?M cur (c # cs) = cur # ?M [] ?d"
      using True ne maximalRuns_dropWhile [of "\<lambda>c. \<not> isWhiteSpace c" cs] by simp
    have sp: "trimRight [32] = []"
      by (simp add: trimRight_def isWhiteSpace_def)
    have c1: "trimRight (cur @ [32]) = cur"
      using "2.prems"(1) by (simp add: trimRight_append sp trimRight_id)
    have "trimRight (cur @ ?R (c # cs)) = trimRight ((cur @ [32]) @ ?R ?d)"
      using True by simp
    also have "\<dots> = (if trimRight (?R ?d) = [] then cur else (cur @ [32]) @ trimRight (?R ?d))"
      by (simp only: trimRight_append [of "cur @ [32]"] c1)
    also have "\<dots> = spaceJoined (cur # ?M [] ?d)"
    proof (cases "?M [] ?d")
      case Nil
      then show ?thesis by (simp add: ih spaceJoined_def)
    next
      case (Cons w ws)
      have "[] \<notin> set (?M [] ?d)" by (rule maximalRuns_nonempty)
      then have "spaceJoined (?M [] ?d) \<noteq> []"
        using Cons spaceJoined_Nil_iff [of "?M [] ?d"] by simp
      then show ?thesis
        unfolding ih Cons by (simp add: spaceJoined_Cons2)
    qed
    finally show ?thesis by (simp only: m)
  next
    case False
    have "trimRight ((cur @ [c]) @ ?R cs) = spaceJoined (?M (cur @ [c]) cs)"
      using "2.hyps"(2) [of "cur @ [c]"] False "2.prems"(1) by simp
    then show ?thesis using False by simp
  qed
qed

lemma trim_collapse_words:
  "trim (replaceRuns isWhiteSpace 32 s) = spaceJoined (wordsOf s)"
proof -
  let ?d = "dropWhile isWhiteSpace s"
  have hd: "?d = [] \<or> \<not> isWhiteSpace (hd ?d)"
    using hd_dropWhile [of isWhiteSpace s] by auto
  have "trim (replaceRuns isWhiteSpace 32 s) = trimRight ([] @ replaceRuns isWhiteSpace 32 ?d)"
    by (simp add: trim_trimRight dropWhile_replaceRuns)
  also have "\<dots> = spaceJoined (maximalRuns (\<lambda>c. \<not> isWhiteSpace c) [] ?d)"
    using hd by (intro trimRight_collapse) simp_all
  also have "\<dots> = spaceJoined (maximalRuns (\<lambda>c. \<not> isWhiteSpace c) [] s)"
    using maximalRuns_dropWhile [of "\<lambda>c. \<not> isWhiteSpace c" s] by simp
  finally show ?thesis by (simp add: wordsOf_def isWhiteSpace_spec)
qed

lemma normalizedText_key: "normalizedText rt = questionKey rt"
  by (rule ext) (simp add: normalizedText_def questionKey_def trim_collapse_words)

subsection \<open>Deduplication\<close>

lemma firstOccurrences_snoc:
  "firstOccurrences key (xs @ [x]) =
     firstOccurrences key xs @ (if key x \<in> key ` set xs then [] else [x])"
proof -
  let ?Q = "\<lambda>i. key ((xs @ [x]) ! i) \<notin> key ` set (take i (xs @ [x]))"
  let ?Q' = "\<lambda>i. key (xs ! i) \<notin> key ` set (take i xs)"
  have f: "filter ?Q [0..<length xs] = filter ?Q' [0..<length xs]"
    by (rule filter_cong) (simp_all add: nth_append)
  have m: "map ((!) (xs @ [x])) (filter ?Q' [0..<length xs])
         = map ((!) xs) (filter ?Q' [0..<length xs])"
    by (rule map_cong) (simp_all add: nth_append)
  have l: "map ((!) (xs @ [x])) (filter ?Q [length xs])
         = (if key x \<in> key ` set xs then [] else [x])"
    by simp
  have "firstOccurrences key (xs @ [x])
        = map ((!) (xs @ [x])) (filter ?Q ([0..<length xs] @ [length xs]))"
    by (simp only: firstOccurrences_def length_append_singleton upt.simps le0 if_True)
  also have "\<dots> = map ((!) (xs @ [x])) (filter ?Q [0..<length xs])
                   @ map ((!) (xs @ [x])) (filter ?Q [length xs])"
    by (simp only: filter_append map_append)
  also have "\<dots> = firstOccurrences key xs @ (if key x \<in> key ` set xs then [] else [x])"
    by (simp only: f m l firstOccurrences_def)
  finally show ?thesis .
qed

lemma firstOccurrences_Nil: "firstOccurrences key [] = []"
  by (simp add: firstOccurrences_def)

lemma set_firstOccurrences: "set (firstOccurrences key xs) \<subseteq> set xs"
  by (induction xs rule: rev_induct) (auto simp: firstOccurrences_Nil firstOccurrences_snoc)

lemma distinct_firstOccurrences: "distinct (map key (firstOccurrences key xs))"
proof (induction xs rule: rev_induct)
  case Nil
  then show ?case by (simp add: firstOccurrences_Nil)
next
  case (snoc x xs)
  then show ?case
    using set_firstOccurrences [of key xs]
    by (auto simp: firstOccurrences_snoc)
qed

lemma dedupeLoop_firstOccurrences:
  "dedupeLoop rt (normalizedText rt ` set p) (firstOccurrences (normalizedText rt) p) qs
     = firstOccurrences (normalizedText rt) (p @ qs)"
proof (induction qs arbitrary: p)
  case Nil
  then show ?case by simp
next
  case (Cons q qs)
  have step: "dedupeLoop rt (normalizedText rt ` set p) (firstOccurrences (normalizedText rt) p) (q # qs)
      = dedupeLoop rt (normalizedText rt ` set (p @ [q])) (firstOccurrences (normalizedText rt) (p @ [q])) qs"
    by (simp add: firstOccurrences_snoc insert_absorb)
  show ?case
    unfolding step using Cons.IH [of "p @ [q]"] by simp
qed

lemma dedupeQuestions_firstOccurrences:
  "dedupeQuestions rt qs = firstOccurrences (normalizedText rt) qs"
  using dedupeLoop_firstOccurrences [of rt "[]" qs]
  by (simp add: dedupeQuestions_def firstOccurrences_Nil)

lemma collectQuestions_concat:
  "collectQuestions rt acc ks =
     acc @ concat (map (\<lambda>k. fetchFromTavily rt (value' k) Google) ks)"
  by (induction ks arbitrary: acc) simp_all

lemma fetchSearchQuestions_unfold:
  "fetchSearchQuestions rt ks m =
     filter (\<lambda>q. 5 < length (text' q))
       (dedupeQuestions rt
         (concat (map (\<lambda>k. fetchFromTavily rt (value' k) Google)
                      (take 5 (sort_key (\<lambda>k. - score k) ks)))))"
  by (cases ks) (simp_all add: fetchSearchQuestions_def Let_def collectQuestions_concat
      dedupeQuestions_def)

lemma example_key1:
  "normalizedText exampleRuntime (questionOf (S ''Hello  World'')) = S ''hello world''"
  by (simp add: normalizedText_def questionOf_def exampleRuntime_sel asciiLower_def trim_def
      isWhiteSpace_def S_simps)

lemma example_key2:
  "normalizedText exampleRuntime (questionOf (S '' hello world '')) = S ''hello world''"
  by (simp add: normalizedText_def questionOf_def exampleRuntime_sel asciiLower_def trim_def
      isWhiteSpace_def S_simps)

lemma example_key3:
  "normalizedText exampleRuntime (questionOf (S ''Hello, world'')) = S ''hello, world''"
  by (simp add: normalizedText_def questionOf_def exampleRuntime_sel asciiLower_def trim_def
      isWhiteSpace_def S_simps)

lemma example_dedupe:
  "dedupeQuestions exampleRuntime
     [questionOf (S ''Hello  World''), questionOf (S '' hello world ''),
      questionOf (S ''Hello, world'')]
   = [questionOf (S ''Hello  World''), questionOf (S ''Hello, world'')]"
  unfolding dedupeQuestions_def dedupeLoop.simps example_key1 example_key2 example_key3
  by (simp add: S_simps)

text \<open>
  C7.  The key of \<open>dedupeQuestions\<close> is the text in lower case with its runs of white
  space collapsed to one space and trimmed, that is, the words of the lower-cased
  text with one space between neighbours.  \<open>dedupeQuestions\<close> keeps exactly the first
  question per key, in the original order; \<open>fetchSearchQuestions\<close> then drops the
  questions whose text has length 5 or less; so no two questions it returns have the
  same key.  In the example the second question has the key of the first and is
  dropped.
\<close>

theorem dedupeQuestions_first_occurrence:
  "normalizedText rt q = spaceJoined (wordsOf (toLowerCase rt (text' q)))
   \<and> dedupeQuestions rt questions = firstOccurrences (questionKey rt) questions
   \<and> distinct (map (questionKey rt) (dedupeQuestions rt questions))
   \<and> fetchSearchQuestions rt seedKeywords maxPerKeyword =
       filter (\<lambda>q. \<not> length (text' q) \<le> 5)
         (dedupeQuestions rt (collectQuestions rt []
            (take 5 (sort_key (\<lambda>k. - score k) seedKeywords))))
   \<and> distinct (map (questionKey rt) (fetchSearchQuestions rt seedKeywords maxPerKeyword))
   \<and> dedupeQuestions exampleRuntime
       [questionOf (S ''Hello  World''), questionOf (S '' hello world ''),
        questionOf (S ''Hello, world'')]
     = [questionOf (S ''Hello  World''), questionOf (S ''Hello, world'')]"
proof -
  have k: "normalizedText rt q = spaceJoined (wordsOf (toLowerCase rt (text' q)))"
    by (simp add: normalizedText_key questionKey_def)
  have f: "\<And>qs. dedupeQuestions rt qs = firstOccurrences (questionKey rt) qs"
    using dedupeQuestions_firstOccurrences [of rt] by (simp add: normalizedText_key)
  have d: "\<And>qs. distinct (map (questionKey rt) (dedupeQuestions rt qs))"
    by (simp add: f distinct_firstOccurrences)
  have u: "fetchSearchQuestions rt seedKeywords maxPerKeyword =
       filter (\<lambda>q. \<not> length (text' q) \<le> 5)
         (dedupeQuestions rt (collectQuestions rt []
            (take 5 (sort_key (\<lambda>k. - score k) seedKeywords))))"
    by (simp add: fetchSearchQuestions_unfold collectQuestions_concat not_le)
  have "distinct (map (questionKey rt) (fetchSearchQuestions rt seedKeywords maxPerKeyword))"
    unfolding u by (rule distinct_map_filter) (rule d)
  with k f d u example_dedupe show ?thesis by (intro conjI)
qed

text \<open>
  C10.  The argument \<open>maxPerKeyword\<close> has no influence on the result of
  \<open>fetchSearchQuestions\<close>: the result is the one for 5, and it is made of all the
  questions the provider returns for the five best keywords, with no cap per keyword.
\<close>

theorem fetchSearchQuestions_ignores_maxPerKeyword:
  "fetchSearchQuestions rt seedKeywords maxPerKeyword = fetchSearchQuestions rt seedKeywords 5
   \<and> fetchSearchQuestions rt seedKeywords maxPerKeyword =
       filter (\<lambda>q. 5 < length (text' q))
         (dedupeQuestions rt
           (concat (map (\<lambda>k. fetchFromTavily rt (value' k) Google)
                        (take 5 (sort_key (\<lambda>k. - score k) seedKeywords)))))"
  using fetchSearchQuestions_unfold [of rt seedKeywords maxPerKeyword]
    fetchSearchQuestions_unfold [of rt seedKeywords 5]
  by simp

subsection \<open>The deduplication example\<close>

text \<open>
  C8.  The two questions \<open>What is X?\<close> and \<open>what   is x ?\<close> have the keys
  \<open>what is x?\<close> and \<open>what is x ?\<close>: the space before the question mark stays, the
  keys differ, and \<open>dedupeQuestions\<close> keeps both questions.
\<close>

lemma normalizedText_q1:
  "normalizedText exampleRuntime \<lparr>source = Google, text' = S ''What is X?'', url = None\<rparr>
     = S ''what is x?''"
  by (simp add: normalizedText_def exampleRuntime_sel asciiLower_def trim_def isWhiteSpace_def S_simps)

lemma normalizedText_q2:
  "normalizedText exampleRuntime \<lparr>source = Google, text' = S ''what   is x ?'', url = None\<rparr>
     = S ''what is x ?''"
  by (simp add: normalizedText_def exampleRuntime_sel asciiLower_def trim_def isWhiteSpace_def S_simps)

lemma normalizedText_q3:
  "normalizedText exampleRuntime \<lparr>source = Google, text' = S ''what   is x?'', url = None\<rparr>
     = S ''what is x?''"
  by (simp add: normalizedText_def exampleRuntime_sel asciiLower_def trim_def isWhiteSpace_def S_simps)

theorem dedupeQuestions_example_counterexample:
  "dedupeQuestions exampleRuntime
     [\<lparr>source = Google, text' = S ''What is X?'', url = None\<rparr>,
      \<lparr>source = Google, text' = S ''what   is x ?'', url = None\<rparr>]
   \<noteq> [\<lparr>source = Google, text' = S ''What is X?'', url = None\<rparr>]"
  unfolding dedupeQuestions_def dedupeLoop.simps normalizedText_q1 normalizedText_q2
  by (simp add: S_simps)

text \<open>
  C8, as the code has it: both questions are kept; without the space before the
  question mark the second question has the key of the first and is dropped.
\<close>

theorem dedupeQuestions_example:
  "dedupeQuestions exampleRuntime
     [\<lparr>source = Google, text' = S ''What is X?'', url = None\<rparr>,
      \<lparr>source = Google, text' = S ''what   is x ?'', url = None\<rparr>]
   = [\<lparr>source = Google, text' = S ''What is X?'', url = None\<rparr>,
      \<lparr>source = Google, text' = S ''what   is x ?'', url = None\<rparr>]
   \<and> dedupeQuestions exampleRuntime
     [\<lparr>source = Google, text' = S ''What is X?'', url = None\<rparr>,
      \<lparr>source = Google, text' = S ''what   is x?'', url = None\<rparr>]
   = [\<lparr>source = Google, text' = S ''What is X?'', url = None\<rparr>]"
  unfolding dedupeQuestions_def dedupeLoop.simps normalizedText_q1 normalizedText_q2
    normalizedText_q3
  by (simp add: S_simps)

subsection \<open>Final score\<close>

lemma Math_round_half_up:
  "of_int (Math_round x) - 1 / 2 \<le> x \<and> x < of_int (Math_round x) + 1 / 2"
  unfolding Math_round_def by linarith

text \<open>
  C1.  In the result of a run the structure score and the coverage percentage are
  the values of the two scorers, and the final score is
  \<open>Math.round(structureScore * 0.4 + coverage * 100 * 0.6)\<close>: the integer within one
  half of that value, a tie going up.  For a structure score of 70 and a coverage of
  50 percent the final score is 58.
\<close>

theorem runAnalysis_finalScore:
  assumes "runAnalysis rt api u = Inr res"
  shows "(\<exists>html. fetchHtml rt u = Inr html \<and>
           structureScore (r_scores res) =
             calculateStructureScore (ex_meta (extractMetaAndContent rt html))
               (ex_headings (extractMetaAndContent rt html))
               (ex_pageQuestions (extractMetaAndContent rt html)) \<and>
           questionCoverage (r_scores res) =
             calculateQuestionCoverage rt (ex_pageQuestions (extractMetaAndContent rt html))
               (r_searchQuestions res) * 100)
       \<and> finalScore (r_scores res) =
           Math_round (of_int (structureScore (r_scores res)) * (4 / 10)
                       + questionCoverage (r_scores res) * (6 / 10))
       \<and> of_int (finalScore (r_scores res)) - 1 / 2
           \<le> of_int (structureScore (r_scores res)) * (4 / 10)
             + questionCoverage (r_scores res) * (6 / 10)
       \<and> of_int (structureScore (r_scores res)) * (4 / 10)
             + questionCoverage (r_scores res) * (6 / 10)
           < of_int (finalScore (r_scores res)) + 1 / 2
       \<and> finalScore (composeScores 70 (50 / 100)) = 58"
proof -
  obtain html where h: "fetchHtml rt u = Inr html"
    using assms by (cases "fetchHtml rt u") (simp_all add: runAnalysis_def)
  let ?ex = "extractMetaAndContent rt html"
  let ?sq = "fetchSearchQuestions rt
      (extractSeedKeywords rt (ex_meta ?ex) (ex_headings ?ex) (ex_contentText ?ex)) 5"
  let ?sc = "composeScores (calculateStructureScore (ex_meta ?ex) (ex_headings ?ex) (ex_pageQuestions ?ex))
      (calculateQuestionCoverage rt (ex_pageQuestions ?ex) ?sq)"
  have res: "r_scores res = ?sc" "r_searchQuestions res = ?sq"
    using assms h by (auto simp: runAnalysis_def Let_def)
  have f: "finalScore (r_scores res) =
           Math_round (of_int (structureScore (r_scores res)) * (4 / 10)
                       + questionCoverage (r_scores res) * (6 / 10))"
    unfolding res by (simp add: composeScores_def Let_def)
  have a: "structureScore ?sc =
      calculateStructureScore (ex_meta ?ex) (ex_headings ?ex) (ex_pageQuestions ?ex)"
    and b: "questionCoverage ?sc = calculateQuestionCoverage rt (ex_pageQuestions ?ex) ?sq * 100"
    by (simp_all add: composeScores_def Let_def)
  have "\<lfloor>117 / 2 :: rat\<rfloor> = 58"
    by (rule floor_unique) simp_all
  then have e: "finalScore (composeScores 70 (50 / 100)) = 58"
    by (simp add: composeScores_def Math_round_def Let_def)
  show ?thesis
    using h a b e f Math_round_half_up [of "of_int (structureScore (r_scores res)) * (4 / 10)
             + questionCoverage (r_scores res) * (6 / 10)"]
    unfolding res by (intro conjI exI [of _ html]) simp_all
qed

theorem runAnalysis_finalScore_witness:
  "\<exists>(api :: jsstring url_api) res.
     runAnalysis exampleRuntime api (S ''geo'') = Inr res
     \<and> finalScore (r_scores res) =
         Math_round (of_int (structureScore (r_scores res)) * (4 / 10)
                     + questionCoverage (r_scores res) * (6 / 10))"
proof -
  obtain api :: "jsstring url_api" where True by simp
  have "\<exists>res. runAnalysis exampleRuntime api (S ''geo'') = Inr res"
    by (simp add: runAnalysis_def exampleRuntime_sel Let_def)
  then obtain res where r: "runAnalysis exampleRuntime api (S ''geo'') = Inr res" ..
  from runAnalysis_finalScore [OF r] have
    "finalScore (r_scores res) =
         Math_round (of_int (structureScore (r_scores res)) * (4 / 10)
                     + questionCoverage (r_scores res) * (6 / 10))"
    by blast
  with r show ?thesis by blast
qed

subsection \<open>URL normalisation\<close>

lemma normalizeUrl_standard:
  assumes "standardAnswers api"
  shows "normalizeUrl api (S ''HTTPS://WWW.Example.com/path/?utm_source=a&keep=1/'')
           = S ''https://example.com/path/?keep=1%2F''"
proof -
  let ?ps = "[(S ''utm_source'', S ''a''), (S ''keep'', S ''1/'')]"
  obtain u0 where
    p: "URL_new api (S ''HTTPS://WWW.Example.com/path/?utm_source=a&keep=1/'') = Some u0"
    using assms by (auto simp: standardAnswers_def split: option.splits)
  let ?u1 = "set_protocol api u0 (S ''https:'')"
  let ?u2 = "set_hostname api ?u1 (S ''example.com'')"
  have h: "get_hostname api ?u1 = S ''www.example.com''"
    and g: "get_search api ?u2 = S ''?utm_source=a&keep=1/''"
    and n: "URLSearchParams_new api (S ''?utm_source=a&keep=1/'') = ?ps"
    and t: "URLSearchParams_toString api [(S ''keep'', S ''1/'')] = S ''keep=1%2F''"
    and r: "URL_toString api (set_search api ?u2 (S ''keep=1%2F''))
            = S ''https://example.com/path/?keep=1%2F''"
    using assms unfolding standardAnswers_def p option.case Let_def by blast+
  have w: "stripWww (S ''www.example.com'') = S ''example.com''"
    by (simp add: stripWww_def startsWith_def S_simps)
  have k: "foldl paramsDelete ?ps (map fst (filter (\<lambda>p. startsWith (fst p) (S ''utm_'')) ?ps))
            = [(S ''keep'', S ''1/'')]"
    by (simp add: paramsDelete_def startsWith_def S_simps)
  have e: "\<not> endsWith (S ''https://example.com/path/?keep=1%2F'') (S ''/'')"
    by (simp add: endsWith_def S_simps)
  show ?thesis
    unfolding normalizeUrl_def p option.case Let_def h w g n k t r
    using e by simp
qed

lemma standardAnswers_met:
  "\<exists>api :: jsstring url_api. standardAnswers api \<and> URL_new api (S ''not a url'') = None"
proof -
  let ?h0 = "S ''https://www.example.com/path/?utm_source=a&keep=1/''"
  let ?h1 = "S ''https://example.com/path/?utm_source=a&keep=1/''"
  let ?h2 = "S ''https://example.com/path/?keep=1%2F''"
  let ?api = "\<lparr>URL_new = (\<lambda>s. if s = S ''HTTPS://WWW.Example.com/path/?utm_source=a&keep=1/''
                                then Some ?h0 else None),
               set_protocol = (\<lambda>u v. u),
               get_hostname = (\<lambda>u. if u = ?h0 then S ''www.example.com'' else []),
               set_hostname = (\<lambda>u v. if u = ?h0 \<and> v = S ''example.com'' then ?h1 else u),
               get_search = (\<lambda>u. if u = ?h1 then S ''?utm_source=a&keep=1/'' else []),
               set_search = (\<lambda>u v. if u = ?h1 \<and> v = S ''keep=1%2F'' then ?h2 else u),
               get_pathname = (\<lambda>u. S ''/path/''),
               URL_toString = (\<lambda>u. u),
               URLSearchParams_new = (\<lambda>s. if s = S ''?utm_source=a&keep=1/''
                                then [(S ''utm_source'', S ''a''), (S ''keep'', S ''1/'')] else []),
               URLSearchParams_toString = (\<lambda>ps. if ps = [(S ''keep'', S ''1/'')]
                                then S ''keep=1%2F'' else [])\<rparr> :: jsstring url_api"
  have "standardAnswers ?api"
    by (simp add: standardAnswers_def S_simps)
  moreover have "URL_new ?api (S ''not a url'') = None"
    by (simp add: S_simps)
  ultimately show ?thesis by blast
qed

text \<open>
  C9.  The URL classes can answer as the standard says, and then the function does
  not return \<open>https://example.com/path?keep=1\<close> on
  \<open>HTTPS://WWW.Example.com/path/?utm_source=a&keep=1/\<close>.
\<close>

theorem normalizeUrl_example_counterexample:
  "(\<exists>api :: jsstring url_api. standardAnswers api)
   \<and> \<not> (\<exists>api :: jsstring url_api. standardAnswers api \<and>
          normalizeUrl api (S ''HTTPS://WWW.Example.com/path/?utm_source=a&keep=1/'')
            = S ''https://example.com/path?keep=1'')"
proof -
  have ne: "S ''https://example.com/path/?keep=1%2F'' \<noteq> S ''https://example.com/path?keep=1''"
    by (simp add: S_simps)
  have "\<not> (\<exists>api :: jsstring url_api. standardAnswers api \<and>
          normalizeUrl api (S ''HTTPS://WWW.Example.com/path/?utm_source=a&keep=1/'')
            = S ''https://example.com/path?keep=1'')"
    using normalizeUrl_standard ne by metis
  with standardAnswers_met show ?thesis by blast
qed

text \<open>
  C9, as the code has it.  Where the URL classes answer as the standard says, the
  result on the example is \<open>https://example.com/path\<close>, at most one slash, and
  \<open>?keep=1%2F\<close>: the scheme is https, the leading \<open>www.\<close> is gone, the \<open>utm_\<close>
  parameter is gone, and the parameter that stays is written back form-urlencoded,
  its slash as \<open>%2F\<close>.  A string the URL constructor rejects is returned unchanged.
\<close>

theorem normalizeUrl_example:
  "(standardAnswers api \<longrightarrow>
      (\<exists>slash. (slash = [] \<or> slash = S ''/'') \<and>
         normalizeUrl api (S ''HTTPS://WWW.Example.com/path/?utm_source=a&keep=1/'')
           = S ''https://example.com/path'' @ slash @ S ''?keep=1%2F''))
   \<and> (URL_new api u = None \<longrightarrow> normalizeUrl api u = u)"
proof -
  have a: "standardAnswers api \<longrightarrow>
      (\<exists>slash. (slash = [] \<or> slash = S ''/'') \<and>
         normalizeUrl api (S ''HTTPS://WWW.Example.com/path/?utm_source=a&keep=1/'')
           = S ''https://example.com/path'' @ slash @ S ''?keep=1%2F'')"
  proof
    assume s: "standardAnswers api"
    have eq: "S ''https://example.com/path'' @ S ''/'' @ S ''?keep=1%2F''
              = S ''https://example.com/path/?keep=1%2F''"
      by (simp add: S_simps)
    have "normalizeUrl api (S ''HTTPS://WWW.Example.com/path/?utm_source=a&keep=1/'')
           = S ''https://example.com/path'' @ S ''/'' @ S ''?keep=1%2F''"
      unfolding eq using s by (rule normalizeUrl_standard)
    then show "\<exists>slash. (slash = [] \<or> slash = S ''/'') \<and>
         normalizeUrl api (S ''HTTPS://WWW.Example.com/path/?utm_source=a&keep=1/'')
           = S ''https://example.com/path'' @ slash @ S ''?keep=1%2F''"
      by blast
  qed
  have b: "URL_new api u = None \<longrightarrow> normalizeUrl api u = u"
    by (simp add: normalizeUrl_def)
  from a b show ?thesis by (intro conjI)
qed

theorem normalizeUrl_example_witness:
  "\<exists>api :: jsstring url_api.
     standardAnswers api
     \<and> (\<exists>slash. (slash = [] \<or> slash = S ''/'') \<and>
          normalizeUrl api (S ''HTTPS://WWW.Example.com/path/?utm_source=a&keep=1/'')
            = S ''https://example.com/path'' @ slash @ S ''?keep=1%2F'')
     \<and> URL_new api (S ''not a url'') = None
     \<and> normalizeUrl api (S ''not a url'') = S ''not a url''"
proof -
  obtain api :: "jsstring url_api" where
    s: "standardAnswers api" and n: "URL_new api (S ''not a url'') = None"
    using standardAnswers_met by blast
  have t: "(standardAnswers api \<longrightarrow>
      (\<exists>slash. (slash = [] \<or> slash = S ''/'') \<and>
         normalizeUrl api (S ''HTTPS://WWW.Example.com/path/?utm_source=a&keep=1/'')
           = S ''https://example.com/path'' @ slash @ S ''?keep=1%2F''))
   \<and> (URL_new api (S ''not a url'') = None \<longrightarrow>
        normalizeUrl api (S ''not a url'') = S ''not a url'')"
    by (rule normalizeUrl_example)
  from s n t show ?thesis by blast
qed

end
